theory Spec2Isabelle
  imports Main
begin

section \<open>JavaScript strings and scalars\<close>

text \<open>
  The model of \<^verbatim>\<open>src/lib/database.ts\<close>. A JavaScript string is a \<open>string\<close> (a list of
  characters, one per code unit). \<^verbatim>\<open>toUpperCase\<close> maps the ASCII letters: the source
  only asks whether its result ends with \<^verbatim>\<open>' SET '\<close>.
\<close>

abbreviation DQ :: string where
  \<comment> \<open>the one-character string holding a double quote\<close>
  "DQ \<equiv> [CHR 0x22]"

abbreviation BQ :: string where
  \<comment> \<open>the one-character string holding a backtick\<close>
  "BQ \<equiv> [CHR 0x60]"

definition startsWith :: "string \<Rightarrow> string \<Rightarrow> bool" where
  \<comment> \<open>\<^verbatim>\<open>s.startsWith(p)\<close>\<close>
  "startsWith s p = (take (length p) s = p)"

definition endsWith :: "string \<Rightarrow> string \<Rightarrow> bool" where
  \<comment> \<open>\<^verbatim>\<open>s.endsWith(p)\<close>\<close>
  "endsWith s p = (length p \<le> length s \<and> drop (length s - length p) s = p)"

fun includes_str :: "string \<Rightarrow> string \<Rightarrow> bool" where
  \<comment> \<open>\<^verbatim>\<open>hay.includes(needle)\<close>: the needle occurs at some position; the empty needle always does\<close>
  "includes_str [] needle = (needle = [])"
| "includes_str (c # hay) needle = (startsWith (c # hay) needle \<or> includes_str hay needle)"

definition sliceEnd :: "nat \<Rightarrow> string \<Rightarrow> string" where
  \<comment> \<open>\<^verbatim>\<open>s.slice(0, -n)\<close> for \<open>n > 0\<close>: all but the last \<open>n\<close> characters, empty when \<open>s\<close> is shorter\<close>
  "sliceEnd n s = take (length s - n) s"

definition sliceLast :: "string \<Rightarrow> string" where
  \<comment> \<open>\<^verbatim>\<open>s.slice(-1)\<close>: the last character as a string, empty for the empty string\<close>
  "sliceLast s = drop (length s - 1) s"

definition sliceFrom1 :: "string \<Rightarrow> string" where
  \<comment> \<open>\<^verbatim>\<open>s.slice(1)\<close>\<close>
  "sliceFrom1 s = drop 1 s"

definition upperChar :: "char \<Rightarrow> char" where
  \<comment> \<open>\<^verbatim>\<open>a\<close> to \<^verbatim>\<open>z\<close> (codes 97 to 122) become \<^verbatim>\<open>A\<close> to \<^verbatim>\<open>Z\<close>\<close>
  "upperChar c = (let n = (of_char c :: nat) in if 97 \<le> n \<and> n \<le> 122 then char_of (n - 32) else c)"

definition toUpperCase :: "string \<Rightarrow> string" where
  "toUpperCase s = map upperChar s"

definition replaceAll :: "char \<Rightarrow> string \<Rightarrow> string \<Rightarrow> string" where
  \<comment> \<open>\<^verbatim>\<open>s.replace(/c/g, r)\<close> for a one-character pattern\<close>
  "replaceAll c r s = concat (map (\<lambda>x. if x = c then r else [x]) s)"

fun decimal :: "nat \<Rightarrow> string" where
  \<comment> \<open>\<^verbatim>\<open>String(n)\<close> for a count \<open>n\<close> of parameters, which is below \<^verbatim>\<open>2 ** 32\<close> for an array\<close>
  "decimal n = (if n < 10 then [char_of (48 + n)] else decimal (n div 10) @ [char_of (48 + n mod 10)])"

declare decimal.simps [simp del]

text \<open>
  \<^verbatim>\<open>BasicSQLValue = string | number | null\<close>. A number is given by the text that
  \<^verbatim>\<open>String\<close> prints for it: \<open>Num ''5''\<close> is \<^verbatim>\<open>5\<close>, \<open>Num ''1e+21''\<close> is \<^verbatim>\<open>1e21\<close>,
  \<open>Num ''NaN''\<close> is \<^verbatim>\<open>NaN\<close>. This text is all that the source reads of a number (in a
  template literal and in \<^verbatim>\<open>join\<close>); \<^verbatim>\<open>-0\<close> prints as \<^verbatim>\<open>0\<close> and is not told from it.
\<close>

datatype BasicSQLValue = Str string | Num string | Null

fun template :: "BasicSQLValue \<Rightarrow> string" where
  \<comment> \<open>the template literal \<^verbatim>\<open>`${value}`\<close>\<close>
  "template (Str s) = s"
| "template (Num n) = n"
| "template Null = ''null''"

section \<open>SQLStatement\<close>

text \<open>
  The class \<^verbatim>\<open>SQLStatement\<close>: the fragments \<^verbatim>\<open>sql\<close> and the parameters \<^verbatim>\<open>values\<close>
  (the field is \<open>values'\<close> here, \<open>values\<close> being a keyword).
\<close>

record SQLStatement =
  sql :: "string list"
  values' :: "BasicSQLValue list"

text \<open>
  \<^verbatim>\<open>SQLValue\<close>, by the branch of \<^verbatim>\<open>append\<close> that takes the value. \<open>Stmt\<close> is a value
  for which \<^verbatim>\<open>isSQL\<close> holds (its \<^verbatim>\<open>sql\<close> and \<^verbatim>\<open>values\<close> arrays are all \<^verbatim>\<open>append\<close>
  reads). \<open>Array\<close> is an ordinary array, whose constructor is \<^verbatim>\<open>Array\<close>. \<open>Object\<close> is
  any other object: the list holds its enumerable keys with their values, in the order
  \<^verbatim>\<open>for ... in\<close> visits them, and the flag says, for an object with no \<^verbatim>\<open>constructor\<close>
  among these keys, whether it has a \<^verbatim>\<open>constructor\<close> all the same (every object literal
  and class instance inherits one; \<^verbatim>\<open>Object.create(null)\<close> has none). Arrays and objects
  may hold any value, as at run time. A value is a separate object from the Statement it
  is appended to.
\<close>

datatype SQLValue =
    Stmt SQLStatement
  | Basic BasicSQLValue
  | Undefined
  | Array "SQLValue list"
  | Object bool "(string \<times> SQLValue) list"

text \<open>
  What this file throws: a \<^verbatim>\<open>TypeError\<close> of the runtime (a method called on
  \<^verbatim>\<open>undefined\<close> or \<^verbatim>\<open>null\<close>), or \<^verbatim>\<open>new Error(message)\<close>.
\<close>

datatype js_error = TypeError | Error string

definition hasConstructor :: "bool \<Rightarrow> (string \<times> SQLValue) list \<Rightarrow> bool" where
  \<comment> \<open>\<^verbatim>\<open>value.constructor\<close> of an object is neither \<^verbatim>\<open>null\<close> nor \<^verbatim>\<open>undefined\<close>\<close>
  "hasConstructor inherits value =
     (case map_of value ''constructor'' of
        None \<Rightarrow> inherits
      | Some c \<Rightarrow> c \<noteq> Basic Null \<and> c \<noteq> Undefined)"

text \<open>
  \<^verbatim>\<open>isSQL\<close>. For a value that is no instance of \<^verbatim>\<open>SQLStatement\<close> it reads
  \<^verbatim>\<open>value?.constructor.name\<close>: nothing is read of \<^verbatim>\<open>null\<close> and \<^verbatim>\<open>undefined\<close>, a string, a
  number and an array have a constructor, and reading \<^verbatim>\<open>name\<close> of the constructor of an
  object throws when that constructor is \<^verbatim>\<open>null\<close> or \<^verbatim>\<open>undefined\<close>.
\<close>

fun isSQL :: "SQLValue \<Rightarrow> js_error + bool" where
  "isSQL (Stmt _) = Inr True"
| "isSQL (Object inherits value) = (if hasConstructor inherits value then Inr False else Inl TypeError)"
| "isSQL _ = Inr False"

text \<open>
  A method that mutates \<^verbatim>\<open>this\<close> returns the Statement as the call leaves it, and the
  error when it threw: the mutations made before a throw stay.
\<close>

type_synonym outcome = "SQLStatement \<times> js_error option"

definition andThen :: "outcome \<Rightarrow> (SQLStatement \<Rightarrow> outcome) \<Rightarrow> outcome" where
  \<comment> \<open>sequencing: a throw skips the rest\<close>
  "andThen r f = (case r of (this, None) \<Rightarrow> f this | (this, Some e) \<Rightarrow> (this, Some e))"

fun forEach :: "'a list \<Rightarrow> SQLStatement \<Rightarrow> ('a \<Rightarrow> SQLStatement \<Rightarrow> outcome) \<Rightarrow> outcome" where
  \<comment> \<open>\<^verbatim>\<open>for (const x of xs) body\<close>, and \<^verbatim>\<open>for (const x in obj) body\<close> over the keys\<close>
  "forEach [] this body = (this, None)"
| "forEach (x # xs) this body = andThen (body x this) (\<lambda>this. forEach xs this body)"

lemma forEach_cong [fundef_cong]:
  "xs = ys \<Longrightarrow> this = that \<Longrightarrow> (\<And>x t. x \<in> set ys \<Longrightarrow> f x t = g x t) \<Longrightarrow>
   forEach xs this f = forEach ys that g"
proof (induction ys arbitrary: xs this that)
  case Nil
  then show ?case by simp
next
  case (Cons y ys)
  have "forEach ys t f = forEach ys t g" for t
    using Cons.IH [of ys t t] Cons.prems(3) by simp
  with Cons.prems show ?case by (simp add: andThen_def)
qed

definition lastFragment :: "SQLStatement \<Rightarrow> string option" where
  \<comment> \<open>\<^verbatim>\<open>this.sql[this.sql.length - 1]\<close>, \<open>None\<close> for \<^verbatim>\<open>undefined\<close>\<close>
  "lastFragment this = (if sql this = [] then None else Some (sql this ! (length (sql this) - 1)))"

definition setLastFragment :: "SQLStatement \<Rightarrow> string \<Rightarrow> SQLStatement" where
  \<comment> \<open>\<^verbatim>\<open>this.sql[this.sql.length - 1] = str\<close>\<close>
  "setLastFragment this str = this\<lparr>sql := (sql this)[length (sql this) - 1 := str]\<rparr>"

text \<open>
  \<^verbatim>\<open>appendRaw\<close>. The constructor makes \<^verbatim>\<open>sql\<close> non-empty and no method shortens it;
  on an empty \<^verbatim>\<open>sql\<close>, which only an assignment to the public field can produce, the
  array's elements stay as they are (JavaScript writes a property \<^verbatim>\<open>-1\<close>, which is
  not an element).
\<close>

definition appendRaw :: "SQLStatement \<Rightarrow> string \<Rightarrow> SQLStatement" where
  "appendRaw this str =
     this\<lparr>sql := (sql this)[length (sql this) - 1 := (sql this ! (length (sql this) - 1)) @ str]\<rparr>"

definition trimLastFragment :: "nat \<Rightarrow> string \<Rightarrow> SQLStatement \<Rightarrow> outcome" where
  \<comment> \<open>\<^verbatim>\<open>this.sql[this.sql.length - 1] = this.sql[this.sql.length - 1].slice(0, -n) + str\<close>\<close>
  "trimLastFragment n str this =
     (case lastFragment this of
        None \<Rightarrow> (this, Some TypeError)
      | Some lf \<Rightarrow> (setLastFragment this (sliceEnd n lf @ str), None))"

definition objectError :: "string \<Rightarrow> js_error" where
  "objectError lf =
     Error (''Objects can only appear in (obj) or after SET; '' @ ''unrecognized: '' @ lf @ ''[obj]'')"

text \<open>\<^verbatim>\<open>append\<close> (\<open>append\<close> is the library's list concatenation).\<close>

fun append_value :: "SQLStatement \<Rightarrow> SQLValue \<Rightarrow> outcome" where
  "append_value this (Stmt value) =
     (case sql value of
        [] \<Rightarrow> (this, None)
      | s0 # rest \<Rightarrow>
          (let this = appendRaw this s0;
               this = this\<lparr>sql := sql this @ rest\<rparr>;
               this = this\<lparr>values' := values' this @ values' value\<rparr>
           in (this, None)))"
| "append_value this (Basic value) =
     (let this = this\<lparr>values' := values' this @ [value]\<rparr>;
          this = this\<lparr>sql := sql this @ ['''']\<rparr>
      in (this, None))"
| "append_value this Undefined = (this, None)"
| "append_value this (Array value) =
     (case (if value = [] then Inr True else isSQL (hd value)) of
        Inl e \<Rightarrow> (this, Some e)
      | Inr True \<Rightarrow> forEach value this (\<lambda>part this. append_value this part)
      | Inr False \<Rightarrow>
        (case lastFragment this of
           None \<Rightarrow> (this, Some TypeError)
         | Some lf \<Rightarrow>
             if includes_str (DQ @ BQ) (sliceLast lf) then
               (let quoteChar = sliceLast lf in
                andThen
                  (forEach value this (\<lambda>col this.
                     andThen (append_value this col)
                       (\<lambda>this. (appendRaw this (quoteChar @ '', '' @ quoteChar), None))))
                  (trimLastFragment 4 ''''))
             else
               andThen
                 (forEach value this (\<lambda>val this.
                    andThen (append_value this val) (\<lambda>this. (appendRaw this '', '', None))))
                 (trimLastFragment 2 '''')))"
| "append_value this (Object inherits value) =
     (case isSQL (Object inherits value) of
        Inl e \<Rightarrow> (this, Some e)
      | Inr _ \<Rightarrow>
     (case lastFragment this of
        None \<Rightarrow> (this, Some TypeError)
      | Some lf \<Rightarrow>
          if endsWith lf ''('' then
            andThen
              (forEach (map fst value) (appendRaw this DQ) (\<lambda>col this.
                 andThen (append_value this (Basic (Str col)))
                   (\<lambda>this. (appendRaw this (DQ @ '', '' @ DQ), None))))
              (\<lambda>this. andThen (trimLastFragment 4 (DQ @ '') VALUES ('') this)
              (\<lambda>this. andThen
                 (forEach value this (\<lambda>(col, v) this.
                    andThen (append_value this v) (\<lambda>this. (appendRaw this '', '', None))))
                 (trimLastFragment 2 '''')))
          else if endsWith (toUpperCase lf) '' SET '' then
            andThen
              (forEach value (appendRaw this DQ) (\<lambda>(col, v) this.
                 andThen (append_value this (Basic (Str col)))
                 (\<lambda>this. andThen (append_value (appendRaw this (DQ @ '' = '')) v)
                 (\<lambda>this. (appendRaw this ('', '' @ DQ), None)))))
              (trimLastFragment 3 '''')
          else (this, Some (objectError lf))))"

definition construct :: "string list \<Rightarrow> nat \<Rightarrow> SQLValue list \<Rightarrow> SQLStatement \<Rightarrow> outcome" where
  \<comment> \<open>the constructor's loop from index \<open>i\<close> on, \<open>strings\<close> being \<^verbatim>\<open>strings[i + 1 ...]\<close>;
      \<^verbatim>\<open>values[i]\<close> past the end of \<^verbatim>\<open>values\<close> is \<^verbatim>\<open>undefined\<close>\<close>
  "construct strings i values this =
     forEach (zip [i ..< i + length strings] strings) this (\<lambda>(i, str) this.
       andThen (append_value this (if i < length values then values ! i else Undefined))
         (\<lambda>this. (appendRaw this str, None)))"

text \<open>
  \<^verbatim>\<open>new SQLStatement(strings, values)\<close>: the Statement, or the error the constructor
  threw. \<^verbatim>\<open>strings[0]\<close> of an empty array is \<^verbatim>\<open>undefined\<close>, which the loop (it does not
  run then) never concatenates; the model stores the text that \<^verbatim>\<open>+=\<close> would read it as.
\<close>

definition SQLStatement_new :: "string list \<Rightarrow> SQLValue list \<Rightarrow> js_error + SQLStatement" where
  "SQLStatement_new strings values =
     (let this = \<lparr>sql = [case strings of [] \<Rightarrow> ''undefined'' | s0 # _ \<Rightarrow> s0], values' = []\<rparr>
      in case construct (drop 1 strings) 0 values this of
           (this, None) \<Rightarrow> Inr this
         | (_, Some e) \<Rightarrow> Inl e)"

section \<open>Dialect resolution\<close>

definition mysql_escapeId :: "string \<Rightarrow> string" where
  "mysql_escapeId ident = BQ @ replaceAll (CHR 0x60) (BQ @ BQ) ident @ BQ"

definition pg_escapeIdentifier :: "string \<Rightarrow> string" where
  "pg_escapeIdentifier ident = DQ @ replaceAll (CHR 0x22) (DQ @ DQ) ident @ DQ"

definition startsWithQuote :: "string \<Rightarrow> bool" where
  \<comment> \<open>\<^verbatim>\<open>s.startsWith('`') || s.startsWith('"')\<close>\<close>
  "startsWithQuote s = (startsWith s BQ \<or> startsWith s DQ)"

text \<open>
  The loops of \<^verbatim>\<open>_resolveSQL\<close>: \<open>frags\<close> is \<^verbatim>\<open>query.sql[i + 1 ...]\<close> and \<open>vs\<close> is
  \<^verbatim>\<open>query.values[i ...]\<close>. When \<^verbatim>\<open>query.sql[i + 1]\<close> is missing, \<^verbatim>\<open>startsWith\<close> is
  called on \<^verbatim>\<open>undefined\<close> and throws. \<open>text\<close> is the local \<^verbatim>\<open>sql\<close>.
\<close>

fun mysql_resolve :: "string list \<Rightarrow> BasicSQLValue list \<Rightarrow> string \<Rightarrow> BasicSQLValue list \<Rightarrow>
    js_error + string \<times> BasicSQLValue list" where
  "mysql_resolve frags [] text values = Inr (text, values)"
| "mysql_resolve [] (value # vs) text values = Inl TypeError"
| "mysql_resolve (frag # frags) (value # vs) text values =
     (if startsWithQuote frag then
        mysql_resolve frags vs (sliceEnd 1 text @ mysql_escapeId (template value) @ sliceFrom1 frag) values
      else
        mysql_resolve frags vs (text @ ''?'' @ frag) (values @ [value]))"

fun pg_resolve :: "string list \<Rightarrow> BasicSQLValue list \<Rightarrow> string \<Rightarrow> BasicSQLValue list \<Rightarrow> nat \<Rightarrow>
    js_error + string \<times> BasicSQLValue list" where
  "pg_resolve frags [] text values paramCount = Inr (text, values)"
| "pg_resolve [] (value # vs) text values paramCount = Inl TypeError"
| "pg_resolve (frag # frags) (value # vs) text values paramCount =
     (if startsWithQuote frag then
        pg_resolve frags vs (sliceEnd 1 text @ pg_escapeIdentifier (template value) @ sliceFrom1 frag)
          values paramCount
      else
        pg_resolve frags vs (text @ ''$'' @ decimal (paramCount + 1) @ frag) (values @ [value])
          (paramCount + 1))"

text \<open>
  \<^verbatim>\<open>query.sql[0]\<close> of an empty \<^verbatim>\<open>sql\<close> is \<^verbatim>\<open>undefined\<close>; as in the constructor, the
  model holds the text it concatenates as.
\<close>

definition firstFragment :: "SQLStatement \<Rightarrow> string" where
  "firstFragment query = (case sql query of [] \<Rightarrow> ''undefined'' | s0 # _ \<Rightarrow> s0)"

definition MySQL_resolveSQL :: "SQLStatement \<Rightarrow> js_error + string \<times> BasicSQLValue list" where
  "MySQL_resolveSQL query = mysql_resolve (drop 1 (sql query)) (values' query) (firstFragment query) []"

definition PG_resolveSQL :: "SQLStatement \<Rightarrow> js_error + string \<times> BasicSQLValue list" where
  "PG_resolveSQL query = pg_resolve (drop 1 (sql query)) (values' query) (firstFragment query) [] 0"

section \<open>Connections\<close>

text \<open>
  What a pool's \<^verbatim>\<open>query\<close> hands back: the driver's error object \<^verbatim>\<open>e\<close> with its
  \<^verbatim>\<open>message\<close> and \<^verbatim>\<open>code\<close> (\<open>None\<close> where the property is missing), or the results.
  MySQL's results are an array of rows, whose cells may be Buffers, or another value
  (an OkPacket, here the affected-row count); Postgres's are \<^verbatim>\<open>{rows, rowCount}\<close>.
\<close>

datatype driver_error = DriverError (message: string) (code: "string option")

datatype cell = Buffer string | Cell BasicSQLValue

type_synonym row = "(string \<times> cell) list"

datatype results = Rows "row list" | OkPacket nat

record mysql_Pool =
  mysql_query :: "(string \<Rightarrow> BasicSQLValue list \<Rightarrow> driver_error + results) option"
  mysql_end :: bool

record pg_Pool =
  pg_query :: "string \<Rightarrow> BasicSQLValue list \<Rightarrow> driver_error + row list \<times> nat"

definition mysql_createPool :: mysql_Pool where
  \<comment> \<open>the stub \<^verbatim>\<open>mysql.createPool\<close>: every query succeeds with no rows, \<^verbatim>\<open>end\<close> does nothing\<close>
  "mysql_createPool = \<lparr>mysql_query = Some (\<lambda>_ _. Inr (Rows [])), mysql_end = True\<rparr>"

definition pg_Pool_new :: pg_Pool where
  \<comment> \<open>the stub \<^verbatim>\<open>pg.Pool\<close>\<close>
  "pg_Pool_new = \<lparr>pg_query = (\<lambda>_ _. Inr ([], 0))\<rparr>"

text \<open>
  The two subclasses of \<^verbatim>\<open>Database\<close> with the fields \<^verbatim>\<open>connection\<close> and \<^verbatim>\<open>prefix\<close>;
  the constructor says which \<^verbatim>\<open>type\<close> it is. A Postgres connection is \<^verbatim>\<open>null\<close> (\<open>None\<close>)
  when the configuration was falsy.
\<close>

datatype Database =
    MySQLDatabase mysql_Pool string
  | PGDatabase "pg_Pool option" string

fun prefix :: "Database \<Rightarrow> string" where
  "prefix (MySQLDatabase _ p) = p"
| "prefix (PGDatabase _ p) = p"

text \<open>
  What thrown values this file's callers can see: the two of \<open>js_error\<close>, or the
  driver's own error object, which Postgres's promise rejects with as it is.
\<close>

datatype thrown = Js js_error | Driver driver_error

fun thrown_code :: "thrown \<Rightarrow> string option" where
  \<comment> \<open>\<^verbatim>\<open>err.code\<close>: an \<^verbatim>\<open>Error\<close> made by \<^verbatim>\<open>new Error(message)\<close> has none\<close>
  "thrown_code (Js _) = None"
| "thrown_code (Driver e) = code e"

text \<open>
  The process-wide state: the list \<^verbatim>\<open>connectedDatabases\<close>, and the calls made on
  pools so far, in order (the effects outside this file).
\<close>

datatype pool_call = QueryCall string "BasicSQLValue list" | EndCall

record world =
  connectedDatabases :: "Database list"
  pool_calls :: "pool_call list"

type_synonym 'a io = "world \<Rightarrow> (thrown + 'a) \<times> world"

definition Database_new :: "Database \<Rightarrow> world \<Rightarrow> world" where
  \<comment> \<open>the base constructor: \<^verbatim>\<open>connectedDatabases.push(this)\<close>\<close>
  "Database_new this w = w\<lparr>connectedDatabases := connectedDatabases w @ [this]\<rparr>"

definition MySQLDatabase_new :: "string option \<Rightarrow> world \<Rightarrow> Database \<times> world" where
  \<comment> \<open>\<^verbatim>\<open>new MySQLDatabase(config)\<close>, the argument being \<^verbatim>\<open>config.prefix\<close>\<close>
  "MySQLDatabase_new config_prefix w =
     (let prefix = (case config_prefix of None \<Rightarrow> '''' | Some p \<Rightarrow> p);
          this = MySQLDatabase mysql_createPool prefix
      in (this, Database_new this w))"

definition PGDatabase_new :: "bool \<Rightarrow> world \<Rightarrow> Database \<times> world" where
  \<comment> \<open>\<^verbatim>\<open>new PGDatabase(config)\<close>, the argument saying whether \<^verbatim>\<open>config\<close> is truthy\<close>
  "PGDatabase_new config w =
     (let this = PGDatabase (if config then Some pg_Pool_new else None) ''''
      in (this, Database_new this w))"

fun hasEnd :: "Database \<Rightarrow> bool" where
  \<comment> \<open>\<^verbatim>\<open>(this.connection as any)?.end\<close> is truthy: the stub \<^verbatim>\<open>pg.Pool\<close> always has \<^verbatim>\<open>end\<close>\<close>
  "hasEnd (MySQLDatabase connection _) = mysql_end connection"
| "hasEnd (PGDatabase None _) = False"
| "hasEnd (PGDatabase (Some connection) _) = True"

definition close :: "Database \<Rightarrow> world \<Rightarrow> world" where
  \<comment> \<open>\<^verbatim>\<open>if (this.connection?.end) void this.connection.end()\<close>\<close>
  "close this w = (if hasEnd this then w\<lparr>pool_calls := pool_calls w @ [EndCall]\<rparr> else w)"

fun escapeId :: "Database \<Rightarrow> string \<Rightarrow> string" where
  "escapeId (MySQLDatabase _ _) ident = mysql_escapeId ident"
| "escapeId (PGDatabase _ _) ident = pg_escapeIdentifier ident"

fun resolveSQL :: "Database \<Rightarrow> SQLStatement \<Rightarrow> js_error + string \<times> BasicSQLValue list" where
  \<comment> \<open>\<^verbatim>\<open>this._resolveSQL(query)\<close>\<close>
  "resolveSQL (MySQLDatabase _ _) query = MySQL_resolveSQL query"
| "resolveSQL (PGDatabase _ _) query = PG_resolveSQL query"

definition joinValues :: "BasicSQLValue list \<Rightarrow> string" where
  \<comment> \<open>\<^verbatim>\<open>`${values}`\<close>, which is \<^verbatim>\<open>values.join(',')\<close>: \<^verbatim>\<open>null\<close> prints as nothing\<close>
  "joinValues vs =
     concat (map (\<lambda>(i, v). (if i = 0 then '''' else '','') @ (case v of Null \<Rightarrow> '''' | _ \<Rightarrow> template v))
       (zip [0 ..< length vs] vs))"

definition bufferToString :: "row \<Rightarrow> row" where
  \<comment> \<open>\<^verbatim>\<open>if (Buffer.isBuffer(row[col])) row[col] = row[col].toString()\<close> for every column\<close>
  "bufferToString r = map (\<lambda>(col, c). (col, case c of Buffer s \<Rightarrow> Cell (Str s) | Cell v \<Rightarrow> Cell v)) r"

definition wrapError :: "driver_error \<Rightarrow> string \<Rightarrow> BasicSQLValue list \<Rightarrow> js_error" where
  \<comment> \<open>\<^verbatim>\<open>new Error(`${e.message} (${query}) (${values}) [${e.code}]`)\<close>\<close>
  "wrapError e query values =
     Error (message e @ '' ('' @ query @ '') ('' @ joinValues values @ '') ['' @
       (case code e of None \<Rightarrow> ''undefined'' | Some c \<Rightarrow> c) @ '']'')"

fun query_raw :: "Database \<Rightarrow> string \<Rightarrow> BasicSQLValue list \<Rightarrow> results io" where
  \<comment> \<open>\<^verbatim>\<open>this._query(query, values)\<close>, the promise's outcome\<close>
  "query_raw (MySQLDatabase connection _) query values w =
     (case mysql_query connection of
        None \<Rightarrow> (Inr (Rows []), w)
      | Some q \<Rightarrow>
          (let w = w\<lparr>pool_calls := pool_calls w @ [QueryCall query values]\<rparr> in
           case q query values of
             Inl e \<Rightarrow> (Inl (Js (wrapError e query values)), w)
           | Inr (Rows rs) \<Rightarrow> (Inr (Rows (map bufferToString rs)), w)
           | Inr r \<Rightarrow> (Inr r, w)))"
| "query_raw (PGDatabase None _) query values w = (Inl (Js TypeError), w)"
| "query_raw (PGDatabase (Some connection) _) query values w =
     (let w = w\<lparr>pool_calls := pool_calls w @ [QueryCall query values]\<rparr> in
      case pg_query connection query values of
        Inl e \<Rightarrow> (Inl (Driver e), w)
      | Inr (rows, rowCount) \<Rightarrow> (Inr (Rows rows), w))"

fun queryExec_raw :: "Database \<Rightarrow> string \<Rightarrow> BasicSQLValue list \<Rightarrow> results io" where
  \<comment> \<open>\<^verbatim>\<open>this._queryExec(query, values)\<close>; Postgres answers \<^verbatim>\<open>{affectedRows: res.rowCount}\<close>\<close>
  "queryExec_raw (MySQLDatabase connection p) query values w =
     query_raw (MySQLDatabase connection p) query values w"
| "queryExec_raw (PGDatabase None _) query values w = (Inl (Js TypeError), w)"
| "queryExec_raw (PGDatabase (Some connection) _) query values w =
     (let w = w\<lparr>pool_calls := pool_calls w @ [QueryCall query values]\<rparr> in
      case pg_query connection query values of
        Inl e \<Rightarrow> (Inl (Driver e), w)
      | Inr (rows, rowCount) \<Rightarrow> (Inr (OkPacket rowCount), w))"

definition query :: "Database \<Rightarrow> SQLStatement \<Rightarrow> results io" where
  \<comment> \<open>\<^verbatim>\<open>db.query(sql)\<close> with a Statement\<close>
  "query this stmt w =
     (case resolveSQL this stmt of
        Inl e \<Rightarrow> (Inl (Js e), w)
      | Inr (q, values) \<Rightarrow> query_raw this q values w)"

definition queryExec :: "Database \<Rightarrow> SQLStatement \<Rightarrow> results io" where
  "queryExec this stmt w =
     (case resolveSQL this stmt of
        Inl e \<Rightarrow> (Inl (Js e), w)
      | Inr (q, values) \<Rightarrow> queryExec_raw this q values w)"

text \<open>
  \<^verbatim>\<open>queryOne\<close>: \<^verbatim>\<open>Array.isArray(res) ? res[0] : res\<close>, the first row, \<^verbatim>\<open>undefined\<close> when
  there is none, or the results that are no array.
\<close>

datatype one = One row | Absent | NoArray results

definition queryOne :: "Database \<Rightarrow> SQLStatement \<Rightarrow> one io" where
  "queryOne this stmt w =
     (case query this stmt w of
        (Inl e, w) \<Rightarrow> (Inl e, w)
      | (Inr (Rows []), w) \<Rightarrow> (Inr Absent, w)
      | (Inr (Rows (r # _)), w) \<Rightarrow> (Inr (One r), w)
      | (Inr res, w) \<Rightarrow> (Inr (NoArray res), w))"

text \<open>
  The three called with no argument return a tag function, which builds the Statement
  from the template and calls the method with it.
\<close>

definition tagged :: "(SQLStatement \<Rightarrow> 'a io) \<Rightarrow> string list \<Rightarrow> SQLValue list \<Rightarrow> 'a io" where
  "tagged run strings rest w =
     (case SQLStatement_new strings rest of
        Inl e \<Rightarrow> (Inl (Js e), w)
      | Inr stmt \<Rightarrow> run stmt w)"

section \<open>Tables\<close>

record DatabaseTable =
  db :: Database
  name :: string
  primaryKeyName :: "string option"

definition getTable :: "Database \<Rightarrow> string \<Rightarrow> string option \<Rightarrow> DatabaseTable" where
  \<comment> \<open>\<^verbatim>\<open>db.getTable(name, primaryKeyName)\<close>: the name gets the prefix\<close>
  "getTable this n pk = \<lparr>db = this, name = prefix this @ n, primaryKeyName = pk\<rparr>"

text \<open>\<^verbatim>\<open>entries\<close> of the select methods: left out, a list of column names, or a Statement.\<close>

datatype entries = NoEntries | Columns "string list" | EntriesSQL SQLStatement

definition selectEntries :: "entries \<Rightarrow> js_error + SQLStatement" where
  \<comment> \<open>\<^verbatim>\<open>if (!entries) entries = SQL`*`; if (Array.isArray(entries)) entries = SQL`"${entries}"`\<close>\<close>
  "selectEntries e =
     (case e of
        NoEntries \<Rightarrow> SQLStatement_new [''*''] []
      | Columns cols \<Rightarrow> SQLStatement_new [DQ, DQ] [Array (map (\<lambda>c. Basic (Str c)) cols)]
      | EntriesSQL s \<Rightarrow> Inr s)"

definition optStmt :: "SQLStatement option \<Rightarrow> SQLValue" where
  \<comment> \<open>an optional Statement argument as an interpolated value\<close>
  "optStmt wh = (case wh of None \<Rightarrow> Undefined | Some s \<Rightarrow> Stmt s)"

definition selectOne :: "DatabaseTable \<Rightarrow> entries \<Rightarrow> string list \<Rightarrow> SQLValue list \<Rightarrow> one io" where
  \<comment> \<open>\<^verbatim>\<open>this.selectOne(entries)`...`\<close>\<close>
  "selectOne this e strings rest w =
     (case selectEntries e of
        Inl err \<Rightarrow> (Inl (Js err), w)
      | Inr ent \<Rightarrow>
          (case SQLStatement_new strings rest of
             Inl err \<Rightarrow> (Inl (Js err), w)
           | Inr clause \<Rightarrow>
               tagged (queryOne (db this))
                 [''SELECT '', '' FROM '' @ DQ, DQ @ '' '', '' LIMIT 1'']
                 [Stmt ent, Basic (Str (name this)), Stmt clause] w))"

definition deleteAll :: "DatabaseTable \<Rightarrow> string list \<Rightarrow> SQLValue list \<Rightarrow> results io" where
  "deleteAll this strings rest w =
     (case SQLStatement_new strings rest of
        Inl err \<Rightarrow> (Inl (Js err), w)
      | Inr clause \<Rightarrow>
          tagged (queryExec (db this))
            [''DELETE FROM '' @ DQ, DQ @ '' '', '''']
            [Basic (Str (name this)), Stmt clause] w)"

definition updateAll :: "DatabaseTable \<Rightarrow> SQLValue \<Rightarrow> string list \<Rightarrow> SQLValue list \<Rightarrow>
    results io" where
  \<comment> \<open>\<open>partialRow\<close> is the value that \<^verbatim>\<open>${partialRow as any}\<close> interpolates\<close>
  "updateAll this partialRow strings rest w =
     (case SQLStatement_new strings rest of
        Inl err \<Rightarrow> (Inl (Js err), w)
      | Inr clause \<Rightarrow>
          tagged (queryExec (db this))
            [''UPDATE '' @ DQ, DQ @ '' SET '', '' '', '''']
            [Basic (Str (name this)), partialRow, Stmt clause] w)"

text \<open>
  \<^verbatim>\<open>insert\<close> (\<open>insert\<close> names a constant of the library already); \<open>partialRow\<close> is the
  value that \<^verbatim>\<open>${partialRow as SQLValue}\<close> interpolates.
\<close>

definition insert_row :: "DatabaseTable \<Rightarrow> SQLValue \<Rightarrow> SQLStatement option \<Rightarrow> results io" where
  "insert_row this partialRow wh =
     tagged (queryExec (db this))
       [''INSERT INTO '' @ DQ, DQ @ '' ('', '') '', '''']
       [Basic (Str (name this)), partialRow, optStmt wh]"

definition tryInsert :: "DatabaseTable \<Rightarrow> SQLValue \<Rightarrow> SQLStatement option \<Rightarrow>
    results option io" where
  \<comment> \<open>\<open>None\<close> is the \<^verbatim>\<open>undefined\<close> returned for a duplicate entry\<close>
  "tryInsert this partialRow wh w =
     (case insert_row this partialRow wh w of
        (Inr r, w) \<Rightarrow> (Inr (Some r), w)
      | (Inl err, w) \<Rightarrow>
          if thrown_code err = Some ''ER_DUP_ENTRY'' then (Inr None, w) else (Inl err, w))"

definition noPrimaryKey :: "DatabaseTable \<Rightarrow> bool" where
  \<comment> \<open>\<^verbatim>\<open>!this.primaryKeyName\<close>: \<^verbatim>\<open>null\<close> and the empty string are falsy\<close>
  "noPrimaryKey this = (case primaryKeyName this of None \<Rightarrow> True | Some k \<Rightarrow> k = '''')"

definition whereKey :: "DatabaseTable \<Rightarrow> BasicSQLValue \<Rightarrow> string list \<times> SQLValue list" where
  \<comment> \<open>the template \<^verbatim>\<open>`WHERE "${this.primaryKeyName}" = ${primaryKey}`\<close>\<close>
  "whereKey this primaryKey =
     ([''WHERE '' @ DQ, DQ @ '' = '', ''''],
      [Basic (case primaryKeyName this of None \<Rightarrow> Null | Some k \<Rightarrow> Str k), Basic primaryKey])"

definition get :: "DatabaseTable \<Rightarrow> BasicSQLValue \<Rightarrow> entries \<Rightarrow> one io" where
  "get this primaryKey e w =
     (if noPrimaryKey this then
        (Inl (Js (Error ''Cannot get() without a single-column primary key'')), w)
      else selectOne this e (fst (whereKey this primaryKey)) (snd (whereKey this primaryKey)) w)"

definition delete :: "DatabaseTable \<Rightarrow> BasicSQLValue \<Rightarrow> results io" where
  "delete this primaryKey w =
     (if noPrimaryKey this then
        (Inl (Js (Error ''Cannot delete() without a single-column primary key'')), w)
      else deleteAll this (fst (whereKey this primaryKey)) (snd (whereKey this primaryKey)) w)"

definition update :: "DatabaseTable \<Rightarrow> BasicSQLValue \<Rightarrow> SQLValue \<Rightarrow> results io" where
  "update this primaryKey data w =
     (if noPrimaryKey this then
        (Inl (Js (Error ''Cannot update() without a single-column primary key'')), w)
      else updateAll this data (fst (whereKey this primaryKey)) (snd (whereKey this primaryKey)) w)"

section \<open>Notions of the statements\<close>

definition invariant :: "SQLStatement \<Rightarrow> bool" where
  \<comment> \<open>one more fragment than parameters\<close>
  "invariant this = (length (sql this) = length (values' this) + 1)"

fun wellFormed :: "SQLValue \<Rightarrow> bool" where
  \<comment> \<open>every Statement inside the value has the invariant\<close>
  "wellFormed (Stmt s) = invariant s"
| "wellFormed (Basic _) = True"
| "wellFormed Undefined = True"
| "wellFormed (Array vs) = list_all wellFormed vs"
| "wellFormed (Object inherits kvs) = list_all (\<lambda>kv. wellFormed (snd kv)) kvs"

abbreviation unquoted :: "BasicSQLValue list \<Rightarrow> string list \<Rightarrow> BasicSQLValue list" where
  \<comment> \<open>of the values \<open>vs\<close>, each followed by the fragment at its position in \<open>frags\<close>, those
      whose fragment does not start with a quote glyph\<close>
  "unquoted vs frags \<equiv> map fst (filter (\<lambda>(v, f). \<not> startsWithQuote f) (zip vs frags))"

abbreviation libraryError :: "js_error \<Rightarrow> bool" where
  \<comment> \<open>an error that the Statement code throws: a \<^verbatim>\<open>TypeError\<close> or the object error\<close>
  "libraryError e \<equiv> e = TypeError \<or> (\<exists>lf. e = objectError lf)"

definition foreign :: "thrown \<Rightarrow> bool" where
  \<comment> \<open>a thrown value that comes from the driver, the runtime, the object check of
      \<^verbatim>\<open>append\<close> or MySQL's wrapping of a driver error\<close>
  "foreign err = ((\<exists>e. err = Driver e) \<or> err = Js TypeError \<or> (\<exists>lf. err = Js (objectError lf)) \<or>
     (\<exists>e q vs. err = Js (wrapError e q vs)))"

section \<open>Basic facts\<close>

lemmas str_defs = startsWith_def endsWith_def sliceEnd_def sliceLast_def sliceFrom1_def
  toUpperCase_def upperChar_def replaceAll_def

lemmas char_defs = char_of_def bit_0

lemmas stmt_defs = andThen_def lastFragment_def setLastFragment_def appendRaw_def
  trimLastFragment_def objectError_def construct_def SQLStatement_new_def hasConstructor_def

lemma decimal_1: "decimal (Suc 0) = ''1''"
  by code_simp

lemma decimal_2: "decimal (Suc (Suc 0)) = ''2''"
  by code_simp

lemma queryExec_raw_mysql_calls:
  "snd (queryExec_raw (MySQLDatabase \<lparr>mysql_query = Some q, mysql_end = e\<rparr> p) text vs w) =
   w\<lparr>pool_calls := pool_calls w @ [QueryCall text vs]\<rparr>"
  by (simp add: Let_def split: sum.splits results.splits)

lemma queryExec_raw_pg_calls:
  "snd (queryExec_raw (PGDatabase (Some c) p) text vs w) =
   w\<lparr>pool_calls := pool_calls w @ [QueryCall text vs]\<rparr>"
  by (simp add: Let_def split: sum.splits prod.splits)

section \<open>Facts about the last fragment\<close>

lemma lastFragment_Some: "sql this \<noteq> [] \<Longrightarrow> lastFragment this = Some (last (sql this))"
  by (simp add: lastFragment_def last_conv_nth)

lemma setLast_butlast: "xs \<noteq> [] \<Longrightarrow> xs[length xs - Suc 0 := y] = butlast xs @ [y]"
  by (induction xs) (auto split: nat.splits)

lemma setLastFragment_eq:
  "sql this \<noteq> [] \<Longrightarrow> setLastFragment this y = this\<lparr>sql := butlast (sql this) @ [y]\<rparr>"
  by (simp add: setLastFragment_def setLast_butlast)

lemma appendRaw_eq:
  "sql this \<noteq> [] \<Longrightarrow> appendRaw this str = this\<lparr>sql := butlast (sql this) @ [last (sql this) @ str]\<rparr>"
  by (simp add: appendRaw_def setLast_butlast last_conv_nth)

section \<open>The fragment and parameter counts\<close>

lemma invariant_appendRaw [simp]: "invariant (appendRaw t s) = invariant t"
  by (simp add: invariant_def appendRaw_def)

lemma invariant_trim: "invariant t \<Longrightarrow> invariant (fst (trimLastFragment n s t))"
  by (simp add: invariant_def trimLastFragment_def setLastFragment_def split: option.splits)

lemma fst_andThen:
  "P (fst r) \<Longrightarrow> (\<And>t. P t \<Longrightarrow> P (fst (f t))) \<Longrightarrow> P (fst (andThen r f))"
  by (cases r) (auto simp: andThen_def split: option.splits)

lemma forEach_preserves:
  "(\<And>x t. x \<in> set xs \<Longrightarrow> P t \<Longrightarrow> P (fst (f x t))) \<Longrightarrow> P this \<Longrightarrow> P (fst (forEach xs this f))"
proof (induction xs arbitrary: this)
  case Nil
  then show ?case by simp
next
  case (Cons x xs)
  show ?case
    unfolding forEach.simps
  proof (rule fst_andThen)
    show "P (fst (f x this))" using Cons.prems by simp
  next
    fix t assume "P t"
    then show "P (fst (forEach xs t f))" using Cons.IH Cons.prems(1) by simp
  qed
qed

lemma invariant_push: "invariant t \<Longrightarrow> invariant (fst (append_value t (Basic b)))"
  by (simp add: invariant_def Let_def)

text \<open>The loops of \<^verbatim>\<open>append\<close> keep what each \<^verbatim>\<open>append\<close> in them keeps.\<close>

lemma separated_loop_invariant:
  assumes "\<And>x t. x \<in> set xs \<Longrightarrow> invariant t \<Longrightarrow> invariant (fst (append_value t x))"
    and "invariant this"
  shows "invariant (fst (forEach xs this (\<lambda>x this.
           andThen (append_value this x) (\<lambda>this. (appendRaw this sep, None)))))"
proof (rule forEach_preserves [where P = invariant])
  fix x t assume "x \<in> set xs" "invariant t"
  then have "invariant (fst (append_value t x))" by (rule assms(1))
  then show "invariant (fst (andThen (append_value t x) (\<lambda>this. (appendRaw this sep, None))))"
    by (rule fst_andThen) simp
qed (rule assms(2))

lemma values_loop_invariant:
  assumes "\<And>k v t. (k, v) \<in> set kvs \<Longrightarrow> invariant t \<Longrightarrow> invariant (fst (append_value t v))"
    and "invariant this"
  shows "invariant (fst (forEach kvs this (\<lambda>(col, v) this.
           andThen (append_value this v) (\<lambda>this. (appendRaw this sep, None)))))"
proof (rule forEach_preserves [where P = invariant])
  fix x t assume x: "x \<in> set kvs" and t: "invariant t"
  obtain k v where kv: "x = (k, v)" by (cases x)
  have "invariant (fst (append_value t v))" using x kv t assms(1) by blast
  then have "invariant (fst (andThen (append_value t v) (\<lambda>this. (appendRaw this sep, None))))"
    by (rule fst_andThen) simp
  then show "invariant (fst ((case x of (col, v) \<Rightarrow> \<lambda>this.
           andThen (append_value this v) (\<lambda>this. (appendRaw this sep, None))) t))"
    by (simp add: kv)
qed (rule assms(2))

lemma pairs_loop_invariant:
  assumes "\<And>k v t. (k, v) \<in> set kvs \<Longrightarrow> invariant t \<Longrightarrow> invariant (fst (append_value t v))"
    and "invariant this"
  shows "invariant (fst (forEach kvs this (\<lambda>(col, v) this.
                 andThen (append_value this (Basic (Str col)))
                 (\<lambda>this. andThen (append_value (appendRaw this sep1) v)
                 (\<lambda>this. (appendRaw this sep2, None))))))"
proof (rule forEach_preserves [where P = invariant])
  fix x t assume x: "x \<in> set kvs" and t: "invariant t"
  obtain k v where kv: "x = (k, v)" by (cases x)
  have a: "invariant (fst (append_value t (Basic (Str k))))" using t by (rule invariant_push)
  have b: "invariant (fst (append_value (appendRaw u sep1) v))" if "invariant u" for u
    using assms(1) [of k v "appendRaw u sep1"] x kv that by simp
  have "invariant (fst (andThen (append_value t (Basic (Str k)))
                 (\<lambda>this. andThen (append_value (appendRaw this sep1) v)
                 (\<lambda>this. (appendRaw this sep2, None)))))"
    apply (rule fst_andThen [where P = invariant])
     apply (rule a)
    apply (rule fst_andThen [where P = invariant])
     apply (erule b)
    apply simp
    done
  then show "invariant (fst ((case x of (col, v) \<Rightarrow> \<lambda>this.
                 andThen (append_value this (Basic (Str col)))
                 (\<lambda>this. andThen (append_value (appendRaw this sep1) v)
                 (\<lambda>this. (appendRaw this sep2, None)))) t))"
    by (simp add: kv)
qed (rule assms(2))

lemma append_value_invariant:
  "invariant this \<Longrightarrow> wellFormed v \<Longrightarrow> invariant (fst (append_value this v))"
proof (induction v arbitrary: this)
  case (Stmt s)
  then show ?case
    by (auto simp: invariant_def appendRaw_def Let_def split: list.splits)
next
  case (Basic b)
  from Basic.prems(1) show ?case by (rule invariant_push)
next
  case Undefined
  then show ?case by simp
next
  case (Array "value")
  have step: "invariant (fst (append_value t x))" if "x \<in> set value" "invariant t" for x t
    using Array.IH [of x t] Array.prems(2) that by (simp add: list_all_iff)
  have parts: "invariant (fst (forEach value this (\<lambda>part this. append_value this part)))"
    by (rule forEach_preserves [where P = invariant]) (use step Array.prems(1) in auto)
  have sep: "invariant (fst (andThen
               (forEach value this (\<lambda>x this.
                  andThen (append_value this x) (\<lambda>this. (appendRaw this s, None))))
               (trimLastFragment n '''')))" for s n
    by (rule fst_andThen [where P = invariant], rule separated_loop_invariant)
       (use step Array.prems(1) invariant_trim in auto)
  show ?case
    using Array.prems(1) parts sep
    by (simp add: Let_def split: sum.splits option.splits bool.splits)
next
  case (Object inherits "value")
  have step: "invariant (fst (append_value t v))" if "(k, v) \<in> set value" "invariant t" for k v t
    using Object.IH [of "(k, v)" v t] Object.prems(2) that by (auto simp: list_all_iff)
  have keys: "invariant (fst (forEach (map fst value) t (\<lambda>col this.
                 andThen (append_value this (Basic (Str col)))
                   (\<lambda>this. (appendRaw this (DQ @ '', '' @ DQ), None)))))" if "invariant t" for t
  proof (rule forEach_preserves [where P = invariant])
    fix x t assume "invariant t"
    then have "invariant (fst (append_value t (Basic (Str x))))" by (rule invariant_push)
    then show "invariant (fst (andThen (append_value t (Basic (Str x)))
                   (\<lambda>this. (appendRaw this (DQ @ '', '' @ DQ), None))))"
      by (rule fst_andThen) simp
  qed (rule that)
  have paren: "invariant (fst (andThen
              (forEach (map fst value) (appendRaw this DQ) (\<lambda>col this.
                 andThen (append_value this (Basic (Str col)))
                   (\<lambda>this. (appendRaw this (DQ @ '', '' @ DQ), None))))
              (\<lambda>this. andThen (trimLastFragment 4 (DQ @ '') VALUES ('') this)
              (\<lambda>this. andThen
                 (forEach value this (\<lambda>(col, v) this.
                    andThen (append_value this v) (\<lambda>this. (appendRaw this '', '', None))))
                 (trimLastFragment 2 '''')))))"
    apply (rule fst_andThen [where P = invariant])
     apply (rule keys)
     apply (simp add: Object.prems(1))
    apply (rule fst_andThen [where P = invariant])
     apply (erule invariant_trim)
    apply (rule fst_andThen [where P = invariant])
     apply (rule values_loop_invariant)
      apply (erule (1) step)
     apply assumption
    apply (erule invariant_trim)
    done
  have set: "invariant (fst (andThen
              (forEach value (appendRaw this DQ) (\<lambda>(col, v) this.
                 andThen (append_value this (Basic (Str col)))
                 (\<lambda>this. andThen (append_value (appendRaw this (DQ @ '' = '')) v)
                 (\<lambda>this. (appendRaw this ('', '' @ DQ), None)))))
              (trimLastFragment 3 '''')))"
    apply (rule fst_andThen [where P = invariant])
     apply (rule pairs_loop_invariant)
      apply (erule (1) step)
     apply (simp add: Object.prems(1))
    apply (erule invariant_trim)
    done
  show ?case
    using Object.prems(1) paren set
    by (simp split: sum.splits option.splits)
qed

lemma construct_invariant:
  assumes "invariant this" and wf: "list_all wellFormed values"
  shows "invariant (fst (construct strings i values this))"
  unfolding construct_def
proof (rule forEach_preserves [where P = invariant])
  fix x :: "nat \<times> string" and t
  assume t: "invariant t"
  obtain j str where x: "x = (j, str)" by (cases x)
  have "wellFormed (if j < length values then values ! j else Undefined)"
    using wf by (simp add: list_all_length)
  with t have "invariant (fst (append_value t (if j < length values then values ! j else Undefined)))"
    by (rule append_value_invariant)
  then have "invariant (fst (andThen (append_value t (if j < length values then values ! j else Undefined))
         (\<lambda>this. (appendRaw this str, None))))"
    by (rule fst_andThen) simp
  then show "invariant (fst ((case x of (i, str) \<Rightarrow> \<lambda>this.
       andThen (append_value this (if i < length values then values ! i else Undefined))
         (\<lambda>this. (appendRaw this str, None))) t))"
    by (simp add: x)
qed (rule assms(1))

lemma SQLStatement_new_invariant:
  assumes "list_all wellFormed values" and "SQLStatement_new strings values = Inr s"
  shows "invariant s"
proof -
  let ?init = "\<lparr>sql = [case strings of [] \<Rightarrow> ''undefined'' | s0 # _ \<Rightarrow> s0], values' = []\<rparr>"
  have "invariant ?init" by (simp add: invariant_def)
  then have "invariant (fst (construct (drop 1 strings) 0 values ?init))"
    using assms(1) by (rule construct_invariant)
  moreover have "s = fst (construct (drop 1 strings) 0 values ?init)"
    using assms(2) by (auto simp: SQLStatement_new_def Let_def split: prod.splits option.splits)
  ultimately show ?thesis by simp
qed

text \<open>
  C1. Every Statement has one more fragment than parameters: the Statement that the
  constructor returns from literal segments and interpolated values, and the Statement
  after \<^verbatim>\<open>append\<close> of any value (a scalar, an array, an object, \<^verbatim>\<open>undefined\<close>, a nested
  Statement) to a Statement that has the invariant, also when \<^verbatim>\<open>append\<close> throws. The
  Statements inside the appended values are Statements too, and have the invariant.
\<close>

theorem statement_invariant:
  "(list_all wellFormed values \<longrightarrow> (\<forall>s. SQLStatement_new strings values = Inr s \<longrightarrow> invariant s)) \<and>
   (invariant this \<and> wellFormed v \<longrightarrow> invariant (fst (append_value this v)))"
  using SQLStatement_new_invariant append_value_invariant by blast

theorem statement_invariant_witness:
  "list_all wellFormed [Basic (Num ''1''), Array [Basic (Str ''x''), Undefined]] \<and>
   SQLStatement_new [''a'', ''b'', ''c''] [Basic (Num ''1''), Array [Basic (Str ''x''), Undefined]] =
     Inr \<lparr>sql = [''a'', ''b'', '', c''], values' = [Num ''1'', Str ''x'']\<rparr> \<and>
   invariant \<lparr>sql = [''a'', ''b'', '', c''], values' = [Num ''1'', Str ''x'']\<rparr> \<and>
   invariant \<lparr>sql = [''f(''], values' = []\<rparr> \<and>
   wellFormed (Object True [(''k'', Stmt \<lparr>sql = [''NOW()''], values' = []\<rparr>)]) \<and>
   invariant (fst (append_value \<lparr>sql = [''f(''], values' = []\<rparr>
     (Object True [(''k'', Stmt \<lparr>sql = [''NOW()''], values' = []\<rparr>)])))"
  using statement_invariant [of "[Basic (Num ''1''), Array [Basic (Str ''x''), Undefined]]"
      "[''a'', ''b'', ''c'']" "\<lparr>sql = [''f(''], values' = []\<rparr>"
      "Object True [(''k'', Stmt \<lparr>sql = [''NOW()''], values' = []\<rparr>)]"]
  by (simp add: invariant_def stmt_defs str_defs upt_rec[of 0] upt_rec[of 1] upt_rec[of 2])

section \<open>Appending a Statement to a Statement\<close>

lemma append_Stmt:
  "sql this \<noteq> [] \<Longrightarrow> sql a \<noteq> [] \<Longrightarrow>
   append_value this (Stmt a) =
     (this\<lparr>sql := butlast (sql this) @ [last (sql this) @ hd (sql a)] @ tl (sql a),
           values' := values' this @ values' a\<rparr>, None)"
  by (cases "sql a") (simp_all add: appendRaw_eq Let_def)

lemma join_assoc:
  assumes "xs \<noteq> []" and "ys \<noteq> []" and "zs \<noteq> []"
  shows "butlast (butlast xs @ [last xs @ hd ys] @ tl ys) @
           [last (butlast xs @ [last xs @ hd ys] @ tl ys) @ hd zs] @ tl zs =
         butlast xs @ [last xs @ hd (butlast ys @ [last ys @ hd zs] @ tl zs)] @
           tl (butlast ys @ [last ys @ hd zs] @ tl zs)"
proof -
  obtain y ys' where ys: "ys = y # ys'" using assms(2) by (cases ys) auto
  show ?thesis
  proof (cases ys' rule: rev_cases)
    case Nil
    with ys show ?thesis by simp
  next
    case (snoc ys'' y')
    with ys show ?thesis by (simp add: butlast_append)
  qed
qed

text \<open>
  C8. For Statements \<open>s\<close>, \<open>a\<close>, \<open>b\<close> that have the invariant, appending \<open>a\<close> to \<open>s\<close>
  and then \<open>b\<close> gives the fragments and parameters that appending to \<open>s\<close> the
  Statement \<open>a\<close> with \<open>b\<close> appended gives. Appending \<open>a\<close> concatenates its first
  fragment onto the last fragment of \<open>s\<close>, and adds its other fragments and all its
  parameters at the end.
\<close>

theorem append_statement_assoc:
  assumes "invariant s" and "invariant a" and "invariant b"
  shows "append_value (fst (append_value s (Stmt a))) (Stmt b) =
           append_value s (Stmt (fst (append_value a (Stmt b)))) \<and>
         append_value s (Stmt a) =
           (\<lparr>sql = butlast (sql s) @ [last (sql s) @ hd (sql a)] @ tl (sql a),
             values' = values' s @ values' a\<rparr>, None)"
proof -
  from assms have ne: "sql s \<noteq> []" "sql a \<noteq> []" "sql b \<noteq> []"
    by (auto simp: invariant_def)
  have sa: "append_value s (Stmt a) =
           (\<lparr>sql = butlast (sql s) @ [last (sql s) @ hd (sql a)] @ tl (sql a),
             values' = values' s @ values' a\<rparr>, None)"
    using ne by (simp add: append_Stmt del: append_value.simps)
  have ab: "append_value a (Stmt b) =
           (\<lparr>sql = butlast (sql a) @ [last (sql a) @ hd (sql b)] @ tl (sql b),
             values' = values' a @ values' b\<rparr>, None)"
    using ne by (simp add: append_Stmt del: append_value.simps)
  have "append_value (fst (append_value s (Stmt a))) (Stmt b) =
           append_value s (Stmt (fst (append_value a (Stmt b))))"
    unfolding sa ab fst_conv
    using ne join_assoc [OF ne]
    by (simp add: append_Stmt del: append_value.simps)
  with sa show ?thesis by simp
qed

theorem append_statement_assoc_witness:
  "invariant \<lparr>sql = [''a'', ''b''], values' = [Num ''1'']\<rparr> \<and>
   invariant \<lparr>sql = [''c'', ''d''], values' = [Null]\<rparr> \<and>
   invariant \<lparr>sql = [''e'', ''f''], values' = [Str ''z'']\<rparr> \<and>
   append_value
     (fst (append_value \<lparr>sql = [''a'', ''b''], values' = [Num ''1'']\<rparr>
        (Stmt \<lparr>sql = [''c'', ''d''], values' = [Null]\<rparr>)))
     (Stmt \<lparr>sql = [''e'', ''f''], values' = [Str ''z'']\<rparr>) =
   append_value \<lparr>sql = [''a'', ''b''], values' = [Num ''1'']\<rparr>
     (Stmt (fst (append_value \<lparr>sql = [''c'', ''d''], values' = [Null]\<rparr>
        (Stmt \<lparr>sql = [''e'', ''f''], values' = [Str ''z'']\<rparr>)))) \<and>
   append_value \<lparr>sql = [''a'', ''b''], values' = [Num ''1'']\<rparr>
     (Stmt \<lparr>sql = [''c'', ''d''], values' = [Null]\<rparr>) =
   (\<lparr>sql = [''a'', ''bc'', ''d''], values' = [Num ''1'', Null]\<rparr>, None)"
  using append_statement_assoc [of "\<lparr>sql = [''a'', ''b''], values' = [Num ''1'']\<rparr>"
      "\<lparr>sql = [''c'', ''d''], values' = [Null]\<rparr>"
      "\<lparr>sql = [''e'', ''f''], values' = [Str ''z'']\<rparr>"]
  by (simp add: invariant_def appendRaw_def)

section \<open>Objects\<close>

text \<open>
  C4. When the last fragment of a Statement ends neither with \<^verbatim>\<open>(\<close> nor, in upper
  case, with \<^verbatim>\<open> SET \<close>, appending an object whose \<^verbatim>\<open>constructor\<close> is neither \<^verbatim>\<open>null\<close>
  nor \<^verbatim>\<open>undefined\<close> throws the error whose message holds that fragment, and leaves the
  Statement as it was; the constructor throws it when the object follows such a first
  literal, and a tagged call returns it with no call made on a pool. Appending an object
  whose \<^verbatim>\<open>constructor\<close> is \<^verbatim>\<open>null\<close> or \<^verbatim>\<open>undefined\<close> (\<^verbatim>\<open>{constructor: null}\<close>,
  \<^verbatim>\<open>Object.create(null)\<close>) throws the \<^verbatim>\<open>TypeError\<close> of \<^verbatim>\<open>isSQL\<close> instead, which holds no
  fragment: \<^verbatim>\<open>isSQL\<close> reads \<^verbatim>\<open>value?.constructor.name\<close> before \<^verbatim>\<open>append\<close> looks at the
  fragment.
\<close>

theorem object_outside_context:
  assumes "sql this \<noteq> []"
    and "last (sql this) = lf"
    and "\<not> endsWith lf ''(''"
    and "\<not> endsWith (toUpperCase lf) '' SET ''"
  shows "(hasConstructor inherits value \<longrightarrow>
           append_value this (Object inherits value) =
             (this, Some (Error (''Objects can only appear in (obj) or after SET; unrecognized: '' @
                                  lf @ ''[obj]''))) \<and>
           SQLStatement_new (lf # str # strings) (Object inherits value # rest) =
             Inl (Error (''Objects can only appear in (obj) or after SET; unrecognized: '' @
                           lf @ ''[obj]'')) \<and>
           tagged run (lf # str # strings) (Object inherits value # rest) w =
             (Inl (Js (Error (''Objects can only appear in (obj) or after SET; unrecognized: '' @
                                lf @ ''[obj]''))), w)) \<and>
         (\<not> hasConstructor inherits value \<longrightarrow>
           append_value this (Object inherits value) = (this, Some TypeError) \<and>
           SQLStatement_new (lf # str # strings) (Object inherits value # rest) = Inl TypeError \<and>
           tagged run (lf # str # strings) (Object inherits value # rest) w = (Inl (Js TypeError), w))"
proof (intro conjI impI)
  assume c: "hasConstructor inherits value"
  show a: "append_value this (Object inherits value) =
           (this, Some (Error (''Objects can only appear in (obj) or after SET; unrecognized: '' @
                                lf @ ''[obj]'')))"
    using assms c by (simp add: lastFragment_Some objectError_def)
  show b: "SQLStatement_new (lf # str # strings) (Object inherits value # rest) =
           Inl (Error (''Objects can only appear in (obj) or after SET; unrecognized: '' @
                         lf @ ''[obj]''))"
    using assms(3,4) c
    by (simp add: SQLStatement_new_def construct_def upt_rec [of 0] andThen_def lastFragment_def
        objectError_def)
  from b show "tagged run (lf # str # strings) (Object inherits value # rest) w =
           (Inl (Js (Error (''Objects can only appear in (obj) or after SET; unrecognized: '' @
                              lf @ ''[obj]''))), w)"
    by (simp add: tagged_def)
next
  assume c: "\<not> hasConstructor inherits value"
  from c show "append_value this (Object inherits value) = (this, Some TypeError)"
    by simp
  from c show b: "SQLStatement_new (lf # str # strings) (Object inherits value # rest) = Inl TypeError"
    by (simp add: SQLStatement_new_def construct_def upt_rec [of 0] andThen_def)
  from b show "tagged run (lf # str # strings) (Object inherits value # rest) w = (Inl (Js TypeError), w)"
    by (simp add: tagged_def)
qed

theorem object_outside_context_witness:
  "sql \<lparr>sql = [''SELECT ''], values' = []\<rparr> \<noteq> [] \<and>
   last (sql \<lparr>sql = [''SELECT ''], values' = []\<rparr>) = ''SELECT '' \<and>
   \<not> endsWith ''SELECT '' ''('' \<and>
   \<not> endsWith (toUpperCase ''SELECT '') '' SET '' \<and>
   hasConstructor True [(''a'', Basic Null)] \<and>
   append_value \<lparr>sql = [''SELECT ''], values' = []\<rparr> (Object True [(''a'', Basic Null)]) =
     (\<lparr>sql = [''SELECT ''], values' = []\<rparr>,
      Some (Error ''Objects can only appear in (obj) or after SET; unrecognized: SELECT [obj]'')) \<and>
   SQLStatement_new [''SELECT '', '' FROM t''] [Object True [(''a'', Basic Null)]] =
     Inl (Error ''Objects can only appear in (obj) or after SET; unrecognized: SELECT [obj]'') \<and>
   tagged (queryExec (PGDatabase None '''')) [''SELECT '', '' FROM t''] [Object True [(''a'', Basic Null)]]
       \<lparr>connectedDatabases = [], pool_calls = []\<rparr> =
     (Inl (Js (Error ''Objects can only appear in (obj) or after SET; unrecognized: SELECT [obj]'')),
      \<lparr>connectedDatabases = [], pool_calls = []\<rparr>) \<and>
   \<not> hasConstructor True [(''constructor'', Basic Null)] \<and>
   append_value \<lparr>sql = [''SELECT ''], values' = []\<rparr> (Object True [(''constructor'', Basic Null)]) =
     (\<lparr>sql = [''SELECT ''], values' = []\<rparr>, Some TypeError) \<and>
   SQLStatement_new [''SELECT '', '' FROM t''] [Object True [(''constructor'', Basic Null)]] =
     Inl TypeError \<and>
   tagged (queryExec (PGDatabase None '''')) [''SELECT '', '' FROM t'']
       [Object True [(''constructor'', Basic Null)]] \<lparr>connectedDatabases = [], pool_calls = []\<rparr> =
     (Inl (Js TypeError), \<lparr>connectedDatabases = [], pool_calls = []\<rparr>)"
  using object_outside_context [of "\<lparr>sql = [''SELECT ''], values' = []\<rparr>" "''SELECT ''"
      True "[(''a'', Basic Null)]" "'' FROM t''" "[]" "[]" "queryExec (PGDatabase None '''')"
      "\<lparr>connectedDatabases = [], pool_calls = []\<rparr>"]
    object_outside_context [of "\<lparr>sql = [''SELECT ''], values' = []\<rparr>" "''SELECT ''"
      True "[(''constructor'', Basic Null)]" "'' FROM t''" "[]" "[]" "queryExec (PGDatabase None '''')"
      "\<lparr>connectedDatabases = [], pool_calls = []\<rparr>"]
  by (simp add: str_defs hasConstructor_def)

lemma upper_last: "s \<noteq> [] \<Longrightarrow> last (toUpperCase s) = upperChar (last s)"
  by (simp add: toUpperCase_def last_map)

lemma endsWith_last: "endsWith s p \<Longrightarrow> p \<noteq> [] \<Longrightarrow> s \<noteq> [] \<and> last s = last p"
  unfolding endsWith_def
  by (metis append_take_drop_id last_appendR length_0_conv le_zero_eq list.size(3))

lemma upperChar_paren: "upperChar c = CHR '' '' \<Longrightarrow> c \<noteq> CHR ''(''"
  by (auto simp: upperChar_def)

lemma set_not_paren:
  assumes "endsWith (toUpperCase s) '' SET ''"
  shows "\<not> endsWith s ''(''"
proof
  assume p: "endsWith s ''(''"
  from endsWith_last [OF p] have ne: "s \<noteq> []" and l: "last s = CHR ''(''" by simp_all
  from endsWith_last [OF assms] have "last (toUpperCase s) = CHR '' ''" by simp
  with ne have "upperChar (last s) = CHR '' ''" by (simp add: upper_last)
  with l show False by (simp add: upperChar_def)
qed

lemma sliceEnd_snoc: "sliceEnd (Suc n) (s @ [c]) = sliceEnd n s"
  by (simp add: sliceEnd_def)

text \<open>
  C10 (as amended). Appending the empty object \<^verbatim>\<open>{}\<close> leaves the parameters as they
  are and shortens the literal text. When the last fragment \<open>F\<close> ends, in upper case,
  with \<^verbatim>\<open> SET \<close>, it becomes \<open>F\<close> without its last two characters. When \<open>F\<close> ends
  with \<^verbatim>\<open>(\<close>, it becomes \<open>F\<close> without its last three characters (four are cut from
  \<open>F\<close> with the quote added), followed by \<^verbatim>\<open>") VALUES\<close>: the text \<^verbatim>\<open>") VALUES (\<close> is
  added and loses its last two characters again.
\<close>

theorem empty_object_truncates:
  assumes "sql this \<noteq> []"
  shows "(endsWith (toUpperCase (last (sql this))) '' SET '' \<longrightarrow>
            append_value this (Object True []) =
              (this\<lparr>sql := butlast (sql this) @ [sliceEnd 2 (last (sql this))]\<rparr>, None)) \<and>
         (endsWith (last (sql this)) ''('' \<longrightarrow>
            append_value this (Object True []) =
              (this\<lparr>sql := butlast (sql this) @ [sliceEnd 3 (last (sql this)) @ DQ @ '') VALUES'']\<rparr>, None))"
proof (intro conjI impI)
  assume s: "endsWith (toUpperCase (last (sql this))) '' SET ''"
  have np: "\<not> endsWith (last (sql this)) ''(''" using set_not_paren [OF s] .
  show "append_value this (Object True []) =
              (this\<lparr>sql := butlast (sql this) @ [sliceEnd 2 (last (sql this))]\<rparr>, None)"
    using assms s np
    by (simp add: lastFragment_Some andThen_def trimLastFragment_def appendRaw_eq
        setLastFragment_eq sliceEnd_snoc numeral_3_eq_3 numeral_2_eq_2 hasConstructor_def)
next
  assume p: "endsWith (last (sql this)) ''(''"
  show "append_value this (Object True []) =
              (this\<lparr>sql := butlast (sql this) @ [sliceEnd 3 (last (sql this)) @ DQ @ '') VALUES'']\<rparr>, None)"
    using assms p
    by (simp add: lastFragment_Some andThen_def trimLastFragment_def appendRaw_eq
        setLastFragment_eq sliceEnd_snoc numeral_3_eq_3 numeral_2_eq_2 eval_nat_numeral
        hasConstructor_def)
      (simp add: sliceEnd_def)
qed

theorem empty_object_truncates_witness:
  "sql \<lparr>sql = [''UPDATE t set ''], values' = []\<rparr> \<noteq> [] \<and>
   endsWith (toUpperCase (last (sql \<lparr>sql = [''UPDATE t set ''], values' = []\<rparr>))) '' SET '' \<and>
   append_value \<lparr>sql = [''UPDATE t set ''], values' = []\<rparr> (Object True []) =
     (\<lparr>sql = [''UPDATE t se''], values' = []\<rparr>, None) \<and>
   sql \<lparr>sql = [''INSERT INTO t (''], values' = []\<rparr> \<noteq> [] \<and>
   endsWith (last (sql \<lparr>sql = [''INSERT INTO t (''], values' = []\<rparr>)) ''('' \<and>
   append_value \<lparr>sql = [''INSERT INTO t (''], values' = []\<rparr> (Object True []) =
     (\<lparr>sql = [''INSERT INTO '' @ DQ @ '') VALUES''], values' = []\<rparr>, None)"
  using empty_object_truncates [of "\<lparr>sql = [''UPDATE t set ''], values' = []\<rparr>"]
    empty_object_truncates [of "\<lparr>sql = [''INSERT INTO t (''], values' = []\<rparr>"]
  by (simp add: str_defs char_defs hasConstructor_def)

text \<open>
  The claim as it stands, that three characters are cut from \<open>F\<close> with the quote added
  before \<^verbatim>\<open>") VALUES (\<close> is added, fails for \<open>F = abc(\<close>: two characters of \<open>F\<close> would
  stay, and one does.
\<close>

theorem empty_object_paren_counterexample:
  "endsWith ''abc('' ''('' \<and>
   append_value \<lparr>sql = [''abc(''], values' = []\<rparr> (Object True []) =
     (\<lparr>sql = [''a'' @ DQ @ '') VALUES''], values' = []\<rparr>, None) \<and>
   ''a'' @ DQ @ '') VALUES'' \<noteq> sliceEnd 3 (''abc('' @ DQ) @ DQ @ '') VALUES ('' \<and>
   \<not> startsWith (''a'' @ DQ @ '') VALUES'') (sliceEnd 3 (''abc('' @ DQ))"
  by (simp add: stmt_defs str_defs)

section \<open>The insert of a row\<close>

lemma insert_users_statement:
  "SQLStatement_new [''INSERT INTO '' @ DQ, DQ @ '' ('', '') '', '''']
     [Basic (Str ''users''), Object True [(''name'', Basic (Str ''x'')), (''age'', Basic (Num ''5''))], Undefined] =
   Inr \<lparr>sql = [''INSERT INTO '' @ DQ, DQ @ '' ('' @ DQ, DQ @ '', '' @ DQ, DQ @ '') VALUES ('', '', '', '') ''],
        values' = [Str ''users'', Str ''name'', Str ''age'', Str ''x'', Num ''5'']\<rparr>"
  by (simp add: stmt_defs str_defs upt_rec[of 0] upt_rec[of 1] upt_rec[of 2] upt_rec[of 3])

lemma insert_users_mysql_resolved:
  "MySQL_resolveSQL
     \<lparr>sql = [''INSERT INTO '' @ DQ, DQ @ '' ('' @ DQ, DQ @ '', '' @ DQ, DQ @ '') VALUES ('', '', '', '') ''],
      values' = [Str ''users'', Str ''name'', Str ''age'', Str ''x'', Num ''5'']\<rparr> =
   Inr (''INSERT INTO `users` (`name`, `age`) VALUES (?, ?) '', [Str ''x'', Num ''5''])"
  by (simp add: MySQL_resolveSQL_def firstFragment_def startsWithQuote_def mysql_escapeId_def str_defs)

lemma insert_users_pg_resolved:
  "PG_resolveSQL
     \<lparr>sql = [''INSERT INTO '' @ DQ, DQ @ '' ('' @ DQ, DQ @ '', '' @ DQ, DQ @ '') VALUES ('', '', '', '') ''],
      values' = [Str ''users'', Str ''name'', Str ''age'', Str ''x'', Num ''5'']\<rparr> =
   Inr (''INSERT INTO '' @ DQ @ ''users'' @ DQ @ '' ('' @ DQ @ ''name'' @ DQ @ '', '' @ DQ @ ''age'' @ DQ @
          '') VALUES ($1, $2) '',
        [Str ''x'', Num ''5''])"
  by (simp add: PG_resolveSQL_def firstFragment_def startsWithQuote_def pg_escapeIdentifier_def
      str_defs decimal_1 decimal_2)

text \<open>
  C7. On a table \<^verbatim>\<open>users\<close> of a connection with the empty prefix,
  \<^verbatim>\<open>insert({name: "x", age: 5})\<close> hands the pool one query: the text
  \<^verbatim>\<open>INSERT INTO <users> (<name>, <age>) VALUES (p1, p2)\<close> followed by a space, the table
  and the two columns as identifiers escaped for the dialect (backticks for MySQL, double
  quotes for Postgres), the two values as the placeholders \<^verbatim>\<open>?\<close>, \<^verbatim>\<open>?\<close> or
  \<^verbatim>\<open>$1\<close>, \<^verbatim>\<open>$2\<close>, and the parameters \<^verbatim>\<open>["x", 5]\<close> in that order.
\<close>

theorem insert_users:
  "snd (insert_row (getTable (MySQLDatabase \<lparr>mysql_query = Some q, mysql_end = e\<rparr> '''') ''users'' None)
     (Object True [(''name'', Basic (Str ''x'')), (''age'', Basic (Num ''5''))]) None w) =
   w\<lparr>pool_calls := pool_calls w @
     [QueryCall ''INSERT INTO `users` (`name`, `age`) VALUES (?, ?) '' [Str ''x'', Num ''5'']]\<rparr> \<and>
   snd (insert_row (getTable (PGDatabase (Some c) '''') ''users'' None)
     (Object True [(''name'', Basic (Str ''x'')), (''age'', Basic (Num ''5''))]) None w) =
   w\<lparr>pool_calls := pool_calls w @
     [QueryCall (''INSERT INTO '' @ DQ @ ''users'' @ DQ @ '' ('' @ DQ @ ''name'' @ DQ @ '', '' @ DQ @
                   ''age'' @ DQ @ '') VALUES ($1, $2) '')
        [Str ''x'', Num ''5'']]\<rparr>"
  using insert_users_statement insert_users_mysql_resolved insert_users_pg_resolved
  by (simp add: insert_row_def getTable_def tagged_def optStmt_def queryExec_def
      queryExec_raw_mysql_calls queryExec_raw_pg_calls del: queryExec_raw.simps)

section \<open>Resolution of scalar interpolations\<close>

lemma appendRaw_pushed:
  "appendRaw (this\<lparr>values' := vs, sql := sql this @ ['''']\<rparr>) str = this\<lparr>values' := vs, sql := sql this @ [str]\<rparr>"
  by (simp add: appendRaw_def)

lemma construct_Cons:
  "construct (str # strs) i values this =
     andThen (andThen (append_value this (if i < length values then values ! i else Undefined))
                (\<lambda>this. (appendRaw this str, None)))
       (construct strs (Suc i) values)"
proof -
  have "[i ..< i + length (str # strs)] = i # [Suc i ..< Suc i + length strs]"
    by (simp add: upt_conv_Cons del: upt_Suc)
  then show ?thesis
    unfolding construct_def by simp
qed

lemma construct_Nil: "construct [] i values this = (this, None)"
  by (simp add: construct_def)

lemma construct_scalars:
  "i + length strs \<le> length vs \<Longrightarrow>
   construct strs i (map Basic vs) this =
     (this\<lparr>sql := sql this @ strs, values' := values' this @ take (length strs) (drop i vs)\<rparr>, None)"
proof (induction strs arbitrary: i this)
  case Nil
  then show ?case by (simp add: construct_Nil)
next
  case (Cons str strs)
  from Cons.prems have i: "i < length vs" and le: "Suc i + length strs \<le> length vs" by simp_all
  have d: "drop i vs = vs ! i # drop (Suc i) vs" using i by (simp add: Cons_nth_drop_Suc)
  show ?case
    using i Cons.IH [OF le]
    by (simp add: construct_Cons andThen_def Let_def appendRaw_pushed d)
qed

lemma SQLStatement_new_scalars:
  assumes "length strings = length vs + 1"
  shows "SQLStatement_new strings (map Basic vs) = Inr \<lparr>sql = strings, values' = vs\<rparr>"
proof -
  obtain s0 rest where s: "strings = s0 # rest" using assms by (cases strings) auto
  with assms have "0 + length rest \<le> length vs" "length rest = length vs" by simp_all
  then show ?thesis
    by (simp add: SQLStatement_new_def s construct_scalars)
qed

lemma mysql_resolve_plain:
  "length frags = length vs \<Longrightarrow> \<forall>f \<in> set frags. \<not> startsWithQuote f \<Longrightarrow>
   mysql_resolve frags vs out acc = Inr (out @ concat (map (\<lambda>f. ''?'' @ f) frags), acc @ vs)"
proof (induction frags arbitrary: vs out acc)
  case Nil
  then show ?case by simp
next
  case (Cons f frags)
  then obtain v vs' where "vs = v # vs'" by (cases vs) auto
  with Cons show ?case by simp
qed

lemma pg_resolve_plain:
  "length frags = length vs \<Longrightarrow> \<forall>f \<in> set frags. \<not> startsWithQuote f \<Longrightarrow>
   pg_resolve frags vs out acc n =
     Inr (out @ concat (map (\<lambda>(i, f). ''$'' @ decimal (Suc i) @ f) (zip [n ..< n + length frags] frags)),
          acc @ vs)"
proof (induction frags arbitrary: vs out acc n)
  case Nil
  then show ?case by simp
next
  case (Cons f frags)
  then obtain v vs' where "vs = v # vs'" by (cases vs) auto
  moreover have "[n ..< n + length (f # frags)] = n # [Suc n ..< Suc n + length frags]"
    by (simp add: upt_conv_Cons del: upt_Suc)
  ultimately show ?case using Cons by (simp del: upt_Suc)
qed

text \<open>
  C2 (as amended). A Statement built from literal segments and scalar interpolations,
  none of them followed by a segment that begins with a backtick or a double quote,
  holds the segments and the scalars as they are, and both resolvers return the scalars
  as the parameter list, in order, with a text that is the first segment followed, for
  each parameter in order, by its placeholder (\<^verbatim>\<open>?\<close> for MySQL, \<^verbatim>\<open>$1\<close>, \<^verbatim>\<open>$2\<close>, ...
  for Postgres) and the next segment: one placeholder for each parameter and no
  identifier substituted.
\<close>

theorem scalar_statement_resolved:
  assumes "length strings = length vs + 1"
    and "\<forall>f \<in> set (drop 1 strings). \<not> startsWithQuote f"
  shows "SQLStatement_new strings (map Basic vs) = Inr \<lparr>sql = strings, values' = vs\<rparr> \<and>
         MySQL_resolveSQL \<lparr>sql = strings, values' = vs\<rparr> =
           Inr (hd strings @ concat (map (\<lambda>f. ''?'' @ f) (drop 1 strings)), vs) \<and>
         PG_resolveSQL \<lparr>sql = strings, values' = vs\<rparr> =
           Inr (hd strings @
                  concat (map (\<lambda>(i, f). ''$'' @ decimal (Suc i) @ f) (zip [0 ..< length vs] (drop 1 strings))),
                vs)"
proof -
  obtain s0 rest where s: "strings = s0 # rest" using assms(1) by (cases strings) auto
  with assms have l: "length rest = length vs" and q: "\<forall>f \<in> set rest. \<not> startsWithQuote f"
    by simp_all
  show ?thesis
    using SQLStatement_new_scalars [OF assms(1)] mysql_resolve_plain [OF l q] pg_resolve_plain [OF l q]
    by (simp add: MySQL_resolveSQL_def PG_resolveSQL_def firstFragment_def s l)
qed

theorem scalar_statement_resolved_witness:
  "length [''SELECT * FROM t WHERE a = '', '' AND b = '', ''''] = length [Num ''1'', Str ''x''] + 1 \<and>
   \<not> startsWithQuote '' AND b = '' \<and> \<not> startsWithQuote '''' \<and>
   SQLStatement_new [''SELECT * FROM t WHERE a = '', '' AND b = '', '''']
       (map Basic [Num ''1'', Str ''x'']) =
     Inr \<lparr>sql = [''SELECT * FROM t WHERE a = '', '' AND b = '', ''''], values' = [Num ''1'', Str ''x'']\<rparr> \<and>
   MySQL_resolveSQL
       \<lparr>sql = [''SELECT * FROM t WHERE a = '', '' AND b = '', ''''], values' = [Num ''1'', Str ''x'']\<rparr> =
     Inr (''SELECT * FROM t WHERE a = ? AND b = ?'', [Num ''1'', Str ''x'']) \<and>
   PG_resolveSQL
       \<lparr>sql = [''SELECT * FROM t WHERE a = '', '' AND b = '', ''''], values' = [Num ''1'', Str ''x'']\<rparr> =
     Inr (''SELECT * FROM t WHERE a = $1 AND b = $2'', [Num ''1'', Str ''x''])"
  using scalar_statement_resolved [of "[''SELECT * FROM t WHERE a = '', '' AND b = '', '''']"
      "[Num ''1'', Str ''x'']"]
  by (simp add: startsWithQuote_def startsWith_def decimal_1 decimal_2)

text \<open>
  The claim as it stands fails when the segment after a scalar begins with a quote
  glyph: the Statement of \<^verbatim>\<open>SQL`SELECT * FROM "${'t'}"`\<close> is built from one scalar
  interpolation only, and it resolves to no parameter and an escaped identifier.
\<close>

theorem scalar_statement_counterexample:
  "SQLStatement_new [''SELECT * FROM '' @ DQ, DQ] [Basic (Str ''t'')] =
     Inr \<lparr>sql = [''SELECT * FROM '' @ DQ, DQ], values' = [Str ''t'']\<rparr> \<and>
   MySQL_resolveSQL \<lparr>sql = [''SELECT * FROM '' @ DQ, DQ], values' = [Str ''t'']\<rparr> =
     Inr (''SELECT * FROM `t`'', []) \<and>
   PG_resolveSQL \<lparr>sql = [''SELECT * FROM '' @ DQ, DQ], values' = [Str ''t'']\<rparr> =
     Inr (''SELECT * FROM '' @ DQ @ ''t'' @ DQ, [])"
  by (simp add: stmt_defs str_defs MySQL_resolveSQL_def PG_resolveSQL_def firstFragment_def
      startsWithQuote_def mysql_escapeId_def pg_escapeIdentifier_def)

section \<open>Values resolved as identifiers\<close>

lemma mysql_resolve_fold:
  "length frags = length vs \<Longrightarrow>
   mysql_resolve frags vs out acc =
     Inr (foldl (\<lambda>t (v, f). if startsWithQuote f
                   then sliceEnd 1 t @ mysql_escapeId (template v) @ sliceFrom1 f
                   else t @ ''?'' @ f) out (zip vs frags),
          acc @ unquoted vs frags)"
proof (induction frags arbitrary: vs out acc)
  case Nil
  then show ?case by simp
next
  case (Cons f frags)
  then obtain v vs' where vs: "vs = v # vs'" and l: "length frags = length vs'" by (cases vs) auto
  show ?case using Cons.IH [OF l] by (simp add: vs)
qed

lemma pg_resolve_fold:
  "length frags = length vs \<Longrightarrow>
   pg_resolve frags vs out acc n =
     Inr (fst (foldl (\<lambda>(t, n) (v, f). if startsWithQuote f
                   then (sliceEnd 1 t @ pg_escapeIdentifier (template v) @ sliceFrom1 f, n)
                   else (t @ ''$'' @ decimal (n + 1) @ f, n + 1)) (out, n) (zip vs frags)),
          acc @ unquoted vs frags)"
proof (induction frags arbitrary: vs out acc n)
  case Nil
  then show ?case by simp
next
  case (Cons f frags)
  then obtain v vs' where vs: "vs = v # vs'" and l: "length frags = length vs'" by (cases vs) auto
  show ?case using Cons.IH [OF l] by (simp add: vs)
qed

lemma mysql_resolve_append:
  "length frags = length vs \<Longrightarrow>
   \<exists>t. mysql_resolve frags vs out acc = Inr (t, acc @ unquoted vs frags) \<and>
       mysql_resolve (frags @ hs) (vs @ ws) out acc = mysql_resolve hs ws t (acc @ unquoted vs frags)"
proof (induction frags arbitrary: vs out acc)
  case Nil
  then show ?case by simp
next
  case (Cons f frags)
  then obtain v vs' where vs: "vs = v # vs'" and l: "length frags = length vs'" by (cases vs) auto
  show ?case
  proof (cases "startsWithQuote f")
    case True
    with Cons.IH [OF l, of "sliceEnd 1 out @ mysql_escapeId (template v) @ sliceFrom1 f" acc]
    show ?thesis by (simp add: vs)
  next
    case False
    with Cons.IH [OF l, of "out @ ''?'' @ f" "acc @ [v]"]
    show ?thesis by (simp add: vs)
  qed
qed

lemma pg_resolve_append:
  "length frags = length vs \<Longrightarrow>
   \<exists>t. pg_resolve frags vs out acc n = Inr (t, acc @ unquoted vs frags) \<and>
       pg_resolve (frags @ hs) (vs @ ws) out acc n =
         pg_resolve hs ws t (acc @ unquoted vs frags) (n + length (unquoted vs frags))"
proof (induction frags arbitrary: vs out acc n)
  case Nil
  then show ?case by simp
next
  case (Cons f frags)
  then obtain v vs' where vs: "vs = v # vs'" and l: "length frags = length vs'" by (cases vs) auto
  show ?case
  proof (cases "startsWithQuote f")
    case True
    with Cons.IH [OF l, of "sliceEnd 1 out @ pg_escapeIdentifier (template v) @ sliceFrom1 f" acc n]
    show ?thesis by (simp add: vs)
  next
    case False
    with Cons.IH [OF l, of "out @ ''$'' @ decimal (n + 1) @ f" "acc @ [v]" "n + 1"]
    show ?thesis by (simp add: vs)
  qed
qed

text \<open>
  C3 (as amended). The resolvers look at the fragment that follows a value, not at the
  one before it. For a Statement that has the invariant, both go through the values in
  order, starting from the first fragment: a value whose following fragment begins with
  a backtick or a double quote puts its identifier, escaped for the dialect, in place of
  the last character of the text so far, followed by that fragment without its first
  character, and adds no parameter; any other value adds its placeholder, that
  fragment, and itself as a parameter. So the parameters returned are the values whose
  following fragment does not begin with a quote glyph, in order. At each position of a
  value \<open>v\<close> whose following fragment \<open>g\<close> begins with a quote glyph, the Statement
  resolves as the loop goes on over the later fragments and values, from the text of the
  Statement before \<open>v\<close> with the identifier spliced in, and with the parameters of that
  Statement.
\<close>

theorem quoted_value_inlined:
  assumes "invariant q"
  shows "MySQL_resolveSQL q =
           Inr (foldl (\<lambda>t (v, f). if startsWithQuote f
                         then sliceEnd 1 t @ mysql_escapeId (template v) @ sliceFrom1 f
                         else t @ ''?'' @ f)
                  (hd (sql q)) (zip (values' q) (tl (sql q))),
                unquoted (values' q) (tl (sql q))) \<and>
         PG_resolveSQL q =
           Inr (fst (foldl (\<lambda>(t, n) (v, f). if startsWithQuote f
                         then (sliceEnd 1 t @ pg_escapeIdentifier (template v) @ sliceFrom1 f, n)
                         else (t @ ''$'' @ decimal (n + 1) @ f, n + 1))
                  (hd (sql q), 0) (zip (values' q) (tl (sql q)))),
                unquoted (values' q) (tl (sql q))) \<and>
         (sql q = fs @ g # hs \<and> values' q = vs @ v # ws \<and> length fs = length vs + 1 \<and>
          startsWithQuote g \<longrightarrow>
           (\<exists>t ps. MySQL_resolveSQL \<lparr>sql = fs, values' = vs\<rparr> = Inr (t, ps) \<and>
              MySQL_resolveSQL q =
                mysql_resolve hs ws (sliceEnd 1 t @ mysql_escapeId (template v) @ sliceFrom1 g) ps) \<and>
           (\<exists>t ps. PG_resolveSQL \<lparr>sql = fs, values' = vs\<rparr> = Inr (t, ps) \<and>
              PG_resolveSQL q =
                pg_resolve hs ws (sliceEnd 1 t @ pg_escapeIdentifier (template v) @ sliceFrom1 g) ps
                  (length ps)))"
proof (intro conjI impI)
  from assms obtain s0 rest where s: "sql q = s0 # rest" and l: "length rest = length (values' q)"
    by (cases "sql q") (auto simp: invariant_def)
  show "MySQL_resolveSQL q =
           Inr (foldl (\<lambda>t (v, f). if startsWithQuote f
                         then sliceEnd 1 t @ mysql_escapeId (template v) @ sliceFrom1 f
                         else t @ ''?'' @ f)
                  (hd (sql q)) (zip (values' q) (tl (sql q))),
                unquoted (values' q) (tl (sql q)))"
    using mysql_resolve_fold [OF l, of s0 "[]"]
    by (simp add: MySQL_resolveSQL_def firstFragment_def s)
  show "PG_resolveSQL q =
           Inr (fst (foldl (\<lambda>(t, n) (v, f). if startsWithQuote f
                         then (sliceEnd 1 t @ pg_escapeIdentifier (template v) @ sliceFrom1 f, n)
                         else (t @ ''$'' @ decimal (n + 1) @ f, n + 1))
                  (hd (sql q), 0) (zip (values' q) (tl (sql q)))),
                unquoted (values' q) (tl (sql q)))"
    using pg_resolve_fold [OF l, of s0 "[]" 0]
    by (simp add: PG_resolveSQL_def firstFragment_def s)
next
  assume a: "sql q = fs @ g # hs \<and> values' q = vs @ v # ws \<and> length fs = length vs + 1 \<and>
          startsWithQuote g"
  then obtain f0 fs' where fs: "fs = f0 # fs'" and l: "length fs' = length vs"
    by (cases fs) auto
  from a have q: "startsWithQuote g" by simp
  obtain tm where tm: "mysql_resolve fs' vs f0 [] = Inr (tm, unquoted vs fs')"
    and tm': "mysql_resolve (fs' @ g # hs) (vs @ v # ws) f0 [] =
                mysql_resolve (g # hs) (v # ws) tm (unquoted vs fs')"
    using mysql_resolve_append [OF l, of f0 "[]" "g # hs" "v # ws"] by auto
  show "\<exists>t ps. MySQL_resolveSQL \<lparr>sql = fs, values' = vs\<rparr> = Inr (t, ps) \<and>
              MySQL_resolveSQL q =
                mysql_resolve hs ws (sliceEnd 1 t @ mysql_escapeId (template v) @ sliceFrom1 g) ps"
    using a tm tm' q by (simp add: MySQL_resolveSQL_def firstFragment_def fs)
  obtain tp where tp: "pg_resolve fs' vs f0 [] 0 = Inr (tp, unquoted vs fs')"
    and tp': "pg_resolve (fs' @ g # hs) (vs @ v # ws) f0 [] 0 =
                pg_resolve (g # hs) (v # ws) tp (unquoted vs fs') (length (unquoted vs fs'))"
    using pg_resolve_append [OF l, of f0 "[]" 0 "g # hs" "v # ws"] by auto
  show "\<exists>t ps. PG_resolveSQL \<lparr>sql = fs, values' = vs\<rparr> = Inr (t, ps) \<and>
              PG_resolveSQL q =
                pg_resolve hs ws (sliceEnd 1 t @ pg_escapeIdentifier (template v) @ sliceFrom1 g) ps
                  (length ps)"
    using a tp tp' q by (simp add: PG_resolveSQL_def firstFragment_def fs)
qed

theorem quoted_value_inlined_witness:
  "invariant \<lparr>sql = [''SELECT '' @ DQ, DQ @ '' FROM t WHERE x = '', ''''],
              values' = [Str ''a'', Num ''1'']\<rparr> \<and>
   sql \<lparr>sql = [''SELECT '' @ DQ, DQ @ '' FROM t WHERE x = '', ''''],
        values' = [Str ''a'', Num ''1'']\<rparr> = [''SELECT '' @ DQ] @ (DQ @ '' FROM t WHERE x = '') # [''''] \<and>
   values' \<lparr>sql = [''SELECT '' @ DQ, DQ @ '' FROM t WHERE x = '', ''''],
            values' = [Str ''a'', Num ''1'']\<rparr> = [] @ Str ''a'' # [Num ''1''] \<and>
   length [''SELECT '' @ DQ] = length ([] :: BasicSQLValue list) + 1 \<and>
   startsWithQuote (DQ @ '' FROM t WHERE x = '') \<and>
   MySQL_resolveSQL \<lparr>sql = [''SELECT '' @ DQ], values' = []\<rparr> = Inr (''SELECT '' @ DQ, []) \<and>
   MySQL_resolveSQL \<lparr>sql = [''SELECT '' @ DQ, DQ @ '' FROM t WHERE x = '', ''''],
                     values' = [Str ''a'', Num ''1'']\<rparr> =
     Inr (''SELECT `a` FROM t WHERE x = ?'', [Num ''1'']) \<and>
   PG_resolveSQL \<lparr>sql = [''SELECT '' @ DQ], values' = []\<rparr> = Inr (''SELECT '' @ DQ, []) \<and>
   PG_resolveSQL \<lparr>sql = [''SELECT '' @ DQ, DQ @ '' FROM t WHERE x = '', ''''],
                  values' = [Str ''a'', Num ''1'']\<rparr> =
     Inr (''SELECT '' @ DQ @ ''a'' @ DQ @ '' FROM t WHERE x = $1'', [Num ''1''])"
  using quoted_value_inlined [of "\<lparr>sql = [''SELECT '' @ DQ, DQ @ '' FROM t WHERE x = '', ''''],
      values' = [Str ''a'', Num ''1'']\<rparr>" "[''SELECT '' @ DQ]" "DQ @ '' FROM t WHERE x = ''" "['''']"
      "[]" "Str ''a''" "[Num ''1'']"]
  by (simp add: invariant_def str_defs MySQL_resolveSQL_def PG_resolveSQL_def firstFragment_def
      startsWithQuote_def mysql_escapeId_def pg_escapeIdentifier_def decimal_1)

text \<open>
  The claim as it stands, about the glyph before the value, fails for
  \<^verbatim>\<open>SQL`x = "${'a'} y`\<close>: the value comes right after a double quote, and both
  resolvers bind it as a parameter.
\<close>

theorem quoted_value_counterexample:
  "endsWith (''x = '' @ DQ) DQ \<and>
   SQLStatement_new [''x = '' @ DQ, '' y''] [Basic (Str ''a'')] =
     Inr \<lparr>sql = [''x = '' @ DQ, '' y''], values' = [Str ''a'']\<rparr> \<and>
   MySQL_resolveSQL \<lparr>sql = [''x = '' @ DQ, '' y''], values' = [Str ''a'']\<rparr> =
     Inr (''x = '' @ DQ @ ''? y'', [Str ''a'']) \<and>
   PG_resolveSQL \<lparr>sql = [''x = '' @ DQ, '' y''], values' = [Str ''a'']\<rparr> =
     Inr (''x = '' @ DQ @ ''$1 y'', [Str ''a''])"
  by (simp add: stmt_defs str_defs MySQL_resolveSQL_def PG_resolveSQL_def firstFragment_def
      startsWithQuote_def decimal_1)

section \<open>Opening and closing a connection\<close>

text \<open>
  C9 (as amended). A Connection is added at the end of \<^verbatim>\<open>connectedDatabases\<close> when it is
  constructed. \<^verbatim>\<open>close()\<close> calls \<^verbatim>\<open>end()\<close> on the pool when the connection has one, and
  leaves the tracking list as it is: the Connection stays in it. A second \<^verbatim>\<open>close()\<close>
  finds the same list and calls \<^verbatim>\<open>end()\<close> once more.
\<close>

theorem close_keeps_tracking:
  "connectedDatabases (snd (MySQLDatabase_new cp w)) = connectedDatabases w @ [fst (MySQLDatabase_new cp w)] \<and>
   connectedDatabases (snd (PGDatabase_new c w)) = connectedDatabases w @ [fst (PGDatabase_new c w)] \<and>
   connectedDatabases (close d w) = connectedDatabases w \<and>
   pool_calls (close d w) = pool_calls w @ (if hasEnd d then [EndCall] else []) \<and>
   connectedDatabases (close d (close d w)) = connectedDatabases (close d w) \<and>
   pool_calls (close d (close d w)) = pool_calls w @ (if hasEnd d then [EndCall, EndCall] else [])"
  by (simp add: MySQLDatabase_new_def PGDatabase_new_def Database_new_def close_def Let_def)

text \<open>
  The claim as it stands, that \<^verbatim>\<open>close()\<close> removes the Connection from the tracking
  list, fails for a MySQL connection made in an empty list and closed: it is still the
  one element of the list, its pool ended.
\<close>

theorem close_counterexample:
  "connectedDatabases
     (close (fst (MySQLDatabase_new None \<lparr>connectedDatabases = [], pool_calls = []\<rparr>))
        (snd (MySQLDatabase_new None \<lparr>connectedDatabases = [], pool_calls = []\<rparr>))) =
   [fst (MySQLDatabase_new None \<lparr>connectedDatabases = [], pool_calls = []\<rparr>)] \<and>
   pool_calls
     (close (fst (MySQLDatabase_new None \<lparr>connectedDatabases = [], pool_calls = []\<rparr>))
        (snd (MySQLDatabase_new None \<lparr>connectedDatabases = [], pool_calls = []\<rparr>))) = [EndCall]"
  by (simp add: MySQLDatabase_new_def Database_new_def close_def Let_def mysql_createPool_def)

section \<open>The tolerant insert\<close>

lemma insert_row_mysql_thrown:
  "fst (insert_row \<lparr>db = MySQLDatabase c p, name = n, primaryKeyName = k\<rparr> row wh w) = Inl err \<Longrightarrow>
   \<exists>j. err = Js j"
  by (auto simp: insert_row_def tagged_def queryExec_def Let_def
      split: sum.splits prod.splits option.splits results.splits)

text \<open>
  C5. \<^verbatim>\<open>tryInsert\<close> on a MySQL connection whose pool fails with the driver error of code
  \<^verbatim>\<open>ER_DUP_ENTRY\<close> does not return \<^verbatim>\<open>undefined\<close>: \<^verbatim>\<open>_query\<close> has wrapped the error
  into a new \<^verbatim>\<open>Error\<close>, which has no \<^verbatim>\<open>code\<close>, and \<^verbatim>\<open>tryInsert\<close> throws that. On any
  MySQL connection \<^verbatim>\<open>tryInsert\<close> never returns \<^verbatim>\<open>undefined\<close>. On a Postgres
  connection, where the driver's error arrives as it is, the same code is caught.
\<close>

theorem tryInsert_duplicate:
  "fst (tryInsert (getTable (MySQLDatabase
          \<lparr>mysql_query = Some (\<lambda>_ _. Inl (DriverError ''Duplicate entry'' (Some ''ER_DUP_ENTRY''))),
           mysql_end = True\<rparr> '''') ''users'' None)
        (Object True [(''name'', Basic (Str ''x'')), (''age'', Basic (Num ''5''))]) None w) =
     Inl (Js (Error
       ''Duplicate entry (INSERT INTO `users` (`name`, `age`) VALUES (?, ?) ) (x,5) [ER_DUP_ENTRY]'')) \<and>
   fst (tryInsert \<lparr>db = MySQLDatabase c p, name = n, primaryKeyName = k\<rparr> row wh w) \<noteq> Inr None \<and>
   fst (tryInsert (getTable (PGDatabase
          (Some \<lparr>pg_query = (\<lambda>_ _. Inl (DriverError ''duplicate key'' (Some ''ER_DUP_ENTRY'')))\<rparr>) '''')
          ''users'' None)
        (Object True [(''name'', Basic (Str ''x'')), (''age'', Basic (Num ''5''))]) None w) = Inr None"
proof (intro conjI)
  show "fst (tryInsert \<lparr>db = MySQLDatabase c p, name = n, primaryKeyName = k\<rparr> row wh w) \<noteq> Inr None"
    using insert_row_mysql_thrown [of c p n k row wh w]
    by (auto simp: tryInsert_def split: prod.splits sum.splits if_splits)
qed (use insert_users_statement insert_users_mysql_resolved insert_users_pg_resolved in
    \<open>simp_all add: tryInsert_def insert_row_def getTable_def tagged_def optStmt_def queryExec_def
      wrapError_def joinValues_def upt_rec [of 0] upt_rec [of 1]\<close>)

section \<open>The methods that need a primary key\<close>

lemma snd_andThen:
  "snd (andThen r f) = Some e \<Longrightarrow> snd r = Some e \<or> (\<exists>t. snd (f t) = Some e)"
  by (cases r) (auto simp: andThen_def split: option.splits)

lemma snd_forEach:
  "snd (forEach xs this f) = Some e \<Longrightarrow> \<exists>x \<in> set xs. \<exists>t. snd (f x t) = Some e"
proof (induction xs arbitrary: this)
  case Nil
  then show ?case by simp
next
  case (Cons x xs)
  from Cons.prems have "snd (f x this) = Some e \<or> (\<exists>t. snd (forEach xs t f) = Some e)"
    by (auto dest: snd_andThen)
  with Cons.IH show ?case by auto
qed

lemma snd_trim: "snd (trimLastFragment n s t) = Some e \<Longrightarrow> e = TypeError"
  by (auto simp: trimLastFragment_def split: option.splits)

lemma isSQL_thrown: "isSQL v = Inl e \<Longrightarrow> e = TypeError"
  by (cases v) (auto split: if_splits)

lemma append_value_thrown:
  "snd (append_value this v) = Some e \<Longrightarrow> libraryError e"
proof (induction v arbitrary: this e)
  case (Stmt s)
  then show ?case by (simp add: Let_def split: list.splits)
next
  case (Basic b)
  then show ?case by (simp add: Let_def)
next
  case Undefined
  then show ?case by simp
next
  case (Array "value")
  from Array.prems consider "e = TypeError"
    | x t where "x \<in> set value" "snd (append_value t x) = Some e"
    by (fastforce simp: Let_def split: sum.splits option.splits bool.splits if_splits
        dest!: snd_andThen snd_forEach snd_trim isSQL_thrown)
  then show ?case
  proof cases
    case 1
    then show ?thesis by simp
  next
    case 2
    then show ?thesis by (rule Array.IH)
  qed
next
  case (Object inherits "value")
  have basic: "snd (append_value t (Basic b)) \<noteq> Some e" for t b
    by (simp add: Let_def)
  from Object.prems basic consider "e = TypeError" | "\<exists>lf. e = objectError lf"
    | k v t where "(k, v) \<in> set value" "snd (append_value t v) = Some e"
    by (fastforce split: sum.splits option.splits if_splits
        dest!: snd_andThen snd_forEach snd_trim)
  then show ?case
  proof cases
    case 3
    from Object.IH [of "(k, v)" v t e] 3 show ?thesis by simp
  qed simp_all
qed

lemma foreign_Driver: "foreign (Driver e)"
  by (simp add: foreign_def)

lemma foreign_wrap: "foreign (Js (wrapError e q vs))"
  unfolding foreign_def by blast

lemma foreign_library: "libraryError e \<Longrightarrow> foreign (Js e)"
  unfolding foreign_def by blast

lemma construct_thrown:
  assumes "snd (construct strings i values this) = Some e"
  shows "libraryError e"
proof -
  from assms obtain x :: "nat \<times> string" and t where
    "snd ((case x of (i, str) \<Rightarrow> \<lambda>this.
       andThen (append_value this (if i < length values then values ! i else Undefined))
         (\<lambda>this. (appendRaw this str, None))) t) = Some e"
    unfolding construct_def by (blast dest: snd_forEach)
  then obtain v u where "snd (append_value u v) = Some e"
    by (cases x) (auto dest!: snd_andThen)
  then show ?thesis by (rule append_value_thrown)
qed

lemma SQLStatement_new_thrown:
  assumes "SQLStatement_new strings values = Inl e"
  shows "libraryError e"
proof -
  from assms have "snd (construct (drop 1 strings) 0 values
      \<lparr>sql = [case strings of [] \<Rightarrow> ''undefined'' | s0 # _ \<Rightarrow> s0], values' = []\<rparr>) = Some e"
    by (auto simp: SQLStatement_new_def Let_def split: prod.splits option.splits)
  then show ?thesis by (rule construct_thrown)
qed

lemma mysql_resolve_thrown: "mysql_resolve frags vs out acc = Inl e \<Longrightarrow> e = TypeError"
  by (induction frags vs out acc rule: mysql_resolve.induct) (auto split: if_splits)

lemma pg_resolve_thrown: "pg_resolve frags vs out acc n = Inl e \<Longrightarrow> e = TypeError"
  by (induction frags vs out acc n rule: pg_resolve.induct) (auto split: if_splits)

lemma resolveSQL_thrown: "resolveSQL d q = Inl e \<Longrightarrow> foreign (Js e)"
  by (cases d) (auto simp: MySQL_resolveSQL_def PG_resolveSQL_def foreign_def
      dest: mysql_resolve_thrown pg_resolve_thrown)

lemma query_raw_thrown: "fst (query_raw d q vs w) = Inl err \<Longrightarrow> foreign err"
proof (cases d)
  case (MySQLDatabase c p)
  assume "fst (query_raw d q vs w) = Inl err"
  with MySQLDatabase show ?thesis
    by (auto simp: Let_def foreign_wrap split: option.splits sum.splits results.splits)
next
  case (PGDatabase c p)
  assume "fst (query_raw d q vs w) = Inl err"
  with PGDatabase show ?thesis
    by (cases c) (auto simp: Let_def foreign_Driver foreign_library split: sum.splits prod.splits)
qed

lemma queryExec_raw_thrown: "fst (queryExec_raw d q vs w) = Inl err \<Longrightarrow> foreign err"
proof (cases d)
  case (MySQLDatabase c p)
  assume "fst (queryExec_raw d q vs w) = Inl err"
  with MySQLDatabase show ?thesis
    using query_raw_thrown [of "MySQLDatabase c p" q vs w err] by simp
next
  case (PGDatabase c p)
  assume "fst (queryExec_raw d q vs w) = Inl err"
  with PGDatabase show ?thesis
    by (cases c) (auto simp: Let_def foreign_Driver foreign_library split: sum.splits prod.splits)
qed

lemma query_thrown:
  assumes "fst (query d s w) = Inl err"
  shows "foreign err"
proof (cases "resolveSQL d s")
  case (Inl e)
  with assms resolveSQL_thrown [OF Inl] show ?thesis by (simp add: query_def)
next
  case (Inr r)
  with assms show ?thesis
    by (cases r) (auto simp: query_def dest: query_raw_thrown)
qed

lemma queryExec_thrown:
  assumes "fst (queryExec d s w) = Inl err"
  shows "foreign err"
proof (cases "resolveSQL d s")
  case (Inl e)
  with assms resolveSQL_thrown [OF Inl] show ?thesis by (simp add: queryExec_def)
next
  case (Inr r)
  with assms show ?thesis
    by (cases r) (auto simp: queryExec_def dest: queryExec_raw_thrown)
qed

lemma queryOne_thrown: "fst (queryOne d s w) = Inl err \<Longrightarrow> foreign err"
  using query_thrown [of d s w err]
  by (auto simp: queryOne_def split: prod.splits sum.splits results.splits list.splits)

lemma tagged_thrown:
  assumes "\<And>s. fst (run s w) = Inl err \<Longrightarrow> foreign err"
    and "fst (tagged run strings rest w) = Inl err"
  shows "foreign err"
proof (cases "SQLStatement_new strings rest")
  case (Inl e)
  with assms(2) have "err = Js e" by (simp add: tagged_def)
  with SQLStatement_new_thrown [OF Inl] show ?thesis by (simp add: foreign_library)
next
  case (Inr s)
  with assms(2) have "fst (run s w) = Inl err" by (simp add: tagged_def)
  then show ?thesis by (rule assms(1))
qed

lemma selectOne_thrown:
  assumes a: "fst (selectOne t e strings rest w) = Inl err"
  shows "foreign err"
proof (cases "selectEntries e")
  case (Inl x)
  then have "libraryError x"
    by (cases e) (auto simp: selectEntries_def dest: SQLStatement_new_thrown)
  then have "foreign (Js x)" by (rule foreign_library)
  moreover from a Inl have "err = Js x" by (simp add: selectOne_def)
  ultimately show ?thesis by simp
next
  case ent: (Inr en)
  show ?thesis
  proof (cases "SQLStatement_new strings rest")
    case (Inl x)
    from SQLStatement_new_thrown [OF Inl] have "foreign (Js x)" by (rule foreign_library)
    moreover from a ent Inl have "err = Js x" by (simp add: selectOne_def)
    ultimately show ?thesis by simp
  next
    case (Inr clause)
    with a ent have "fst (tagged (queryOne (db t))
                 [''SELECT '', '' FROM '' @ DQ, DQ @ '' '', '' LIMIT 1'']
                 [Stmt en, Basic (Str (name t)), Stmt clause] w) = Inl err"
      by (simp add: selectOne_def)
    then show ?thesis
      by (rule tagged_thrown [where run = "queryOne (db t)", rotated]) (rule queryOne_thrown)
  qed
qed

lemma deleteAll_thrown:
  assumes a: "fst (deleteAll t strings rest w) = Inl err"
  shows "foreign err"
proof (cases "SQLStatement_new strings rest")
  case (Inl x)
  from SQLStatement_new_thrown [OF Inl] have "foreign (Js x)" by (rule foreign_library)
  moreover from a Inl have "err = Js x" by (simp add: deleteAll_def)
  ultimately show ?thesis by simp
next
  case (Inr clause)
  with a have "fst (tagged (queryExec (db t))
            [''DELETE FROM '' @ DQ, DQ @ '' '', '''']
            [Basic (Str (name t)), Stmt clause] w) = Inl err"
    by (simp add: deleteAll_def)
  then show ?thesis
    by (rule tagged_thrown [where run = "queryExec (db t)", rotated]) (rule queryExec_thrown)
qed

lemma updateAll_thrown:
  assumes a: "fst (updateAll t row strings rest w) = Inl err"
  shows "foreign err"
proof (cases "SQLStatement_new strings rest")
  case (Inl x)
  from SQLStatement_new_thrown [OF Inl] have "foreign (Js x)" by (rule foreign_library)
  moreover from a Inl have "err = Js x" by (simp add: updateAll_def)
  ultimately show ?thesis by simp
next
  case (Inr clause)
  with a have "fst (tagged (queryExec (db t))
            [''UPDATE '' @ DQ, DQ @ '' SET '', '' '', '''']
            [Basic (Str (name t)), row, Stmt clause] w) = Inl err"
    by (simp add: updateAll_def)
  then show ?thesis
    by (rule tagged_thrown [where run = "queryExec (db t)", rotated]) (rule queryExec_thrown)
qed

lemma wrapError_last: "wrapError e q vs = Error m \<Longrightarrow> last m = CHR '']''"
  by (auto simp: wrapError_def)

lemma objectError_hd: "objectError lf = Error m \<Longrightarrow> hd m = CHR ''O''"
  by (auto simp: objectError_def)

lemma foreign_Error:
  assumes "foreign (Js (Error m))"
  shows "hd m = CHR ''O'' \<or> last m = CHR '']''"
  using assms unfolding foreign_def
  by (auto dest: wrapError_last [OF sym] objectError_hd [OF sym])

text \<open>
  C6 (as amended). On a table whose \<^verbatim>\<open>primaryKeyName\<close> is \<^verbatim>\<open>null\<close> or the empty string,
  \<^verbatim>\<open>get\<close>, \<^verbatim>\<open>delete\<close> and \<^verbatim>\<open>update\<close> throw their configuration error at once: no
  Statement is built and the world, with the calls made on pools, is as before. When
  \<^verbatim>\<open>primaryKeyName\<close> is a non-empty string, none of them throws that error.
\<close>

theorem keyed_methods_need_key:
  "(primaryKeyName t = None \<or> primaryKeyName t = Some '''' \<longrightarrow>
      get t pk e w = (Inl (Js (Error ''Cannot get() without a single-column primary key'')), w) \<and>
      delete t pk w = (Inl (Js (Error ''Cannot delete() without a single-column primary key'')), w) \<and>
      update t pk data w = (Inl (Js (Error ''Cannot update() without a single-column primary key'')), w)) \<and>
   (primaryKeyName t = Some k \<and> k \<noteq> '''' \<longrightarrow>
      fst (get t pk e w) \<noteq> Inl (Js (Error ''Cannot get() without a single-column primary key'')) \<and>
      fst (delete t pk w) \<noteq> Inl (Js (Error ''Cannot delete() without a single-column primary key'')) \<and>
      fst (update t pk data w) \<noteq> Inl (Js (Error ''Cannot update() without a single-column primary key'')))"
proof (intro conjI impI)
  assume "primaryKeyName t = None \<or> primaryKeyName t = Some ''''"
  then have n: "noPrimaryKey t" by (auto simp: noPrimaryKey_def)
  from n show "get t pk e w = (Inl (Js (Error ''Cannot get() without a single-column primary key'')), w)"
    by (simp add: get_def)
  from n show "delete t pk w = (Inl (Js (Error ''Cannot delete() without a single-column primary key'')), w)"
    by (simp add: delete_def)
  from n show "update t pk data w = (Inl (Js (Error ''Cannot update() without a single-column primary key'')), w)"
    by (simp add: update_def)
next
  assume "primaryKeyName t = Some k \<and> k \<noteq> ''''"
  then have n: "\<not> noPrimaryKey t" by (simp add: noPrimaryKey_def)
  show "fst (get t pk e w) \<noteq> Inl (Js (Error ''Cannot get() without a single-column primary key''))"
  proof
    assume "fst (get t pk e w) = Inl (Js (Error ''Cannot get() without a single-column primary key''))"
    with n have "foreign (Js (Error ''Cannot get() without a single-column primary key''))"
      by (simp add: get_def selectOne_thrown)
    from foreign_Error [OF this] show False by simp
  qed
  show "fst (delete t pk w) \<noteq> Inl (Js (Error ''Cannot delete() without a single-column primary key''))"
  proof
    assume "fst (delete t pk w) = Inl (Js (Error ''Cannot delete() without a single-column primary key''))"
    with n have "foreign (Js (Error ''Cannot delete() without a single-column primary key''))"
      by (simp add: delete_def deleteAll_thrown)
    from foreign_Error [OF this] show False by simp
  qed
  show "fst (update t pk data w) \<noteq> Inl (Js (Error ''Cannot update() without a single-column primary key''))"
  proof
    assume "fst (update t pk data w) = Inl (Js (Error ''Cannot update() without a single-column primary key''))"
    with n have "foreign (Js (Error ''Cannot update() without a single-column primary key''))"
      by (simp add: update_def updateAll_thrown)
    from foreign_Error [OF this] show False by simp
  qed
qed

theorem keyed_methods_need_key_witness:
  "primaryKeyName (getTable (MySQLDatabase mysql_createPool '''') ''users'' None) = None \<and>
   get (getTable (MySQLDatabase mysql_createPool '''') ''users'' None) (Num ''42'') NoEntries
       \<lparr>connectedDatabases = [], pool_calls = []\<rparr> =
     (Inl (Js (Error ''Cannot get() without a single-column primary key'')),
      \<lparr>connectedDatabases = [], pool_calls = []\<rparr>) \<and>
   delete (getTable (MySQLDatabase mysql_createPool '''') ''users'' None) (Num ''42'')
       \<lparr>connectedDatabases = [], pool_calls = []\<rparr> =
     (Inl (Js (Error ''Cannot delete() without a single-column primary key'')),
      \<lparr>connectedDatabases = [], pool_calls = []\<rparr>) \<and>
   update (getTable (MySQLDatabase mysql_createPool '''') ''users'' None) (Num ''42'')
       (Object True [(''status'', Basic (Str ''done''))]) \<lparr>connectedDatabases = [], pool_calls = []\<rparr> =
     (Inl (Js (Error ''Cannot update() without a single-column primary key'')),
      \<lparr>connectedDatabases = [], pool_calls = []\<rparr>) \<and>
   primaryKeyName (getTable (PGDatabase (Some pg_Pool_new) '''') ''users'' (Some ''id'')) = Some ''id'' \<and>
   ''id'' \<noteq> '''' \<and>
   fst (get (getTable (PGDatabase (Some pg_Pool_new) '''') ''users'' (Some ''id'')) (Num ''42'') NoEntries
       \<lparr>connectedDatabases = [], pool_calls = []\<rparr>) \<noteq>
     Inl (Js (Error ''Cannot get() without a single-column primary key'')) \<and>
   fst (delete (getTable (PGDatabase (Some pg_Pool_new) '''') ''users'' (Some ''id'')) (Num ''42'')
       \<lparr>connectedDatabases = [], pool_calls = []\<rparr>) \<noteq>
     Inl (Js (Error ''Cannot delete() without a single-column primary key'')) \<and>
   fst (update (getTable (PGDatabase (Some pg_Pool_new) '''') ''users'' (Some ''id'')) (Num ''42'')
       (Object True [(''status'', Basic (Str ''done''))]) \<lparr>connectedDatabases = [], pool_calls = []\<rparr>) \<noteq>
     Inl (Js (Error ''Cannot update() without a single-column primary key''))"
  using keyed_methods_need_key [of "getTable (MySQLDatabase mysql_createPool '''') ''users'' None"
      "Num ''42''" NoEntries "\<lparr>connectedDatabases = [], pool_calls = []\<rparr>"
      "Object True [(''status'', Basic (Str ''done''))]"]
    keyed_methods_need_key [of "getTable (PGDatabase (Some pg_Pool_new) '''') ''users'' (Some ''id'')"
      "Num ''42''" NoEntries "\<lparr>connectedDatabases = [], pool_calls = []\<rparr>"
      "Object True [(''status'', Basic (Str ''done''))]" "''id''"]
  by (simp add: getTable_def)

text \<open>
  The claim as it stands, that the methods do not throw the error when
  \<^verbatim>\<open>primaryKeyName\<close> is set, fails for a table whose key name is the empty string, which
  is not \<^verbatim>\<open>null\<close>: \<^verbatim>\<open>!this.primaryKeyName\<close> holds of it.
\<close>

theorem keyed_methods_counterexample:
  "primaryKeyName (getTable (MySQLDatabase mysql_createPool '''') ''users'' (Some '''')) = Some '''' \<and>
   get (getTable (MySQLDatabase mysql_createPool '''') ''users'' (Some '''')) (Num ''42'') NoEntries
       \<lparr>connectedDatabases = [], pool_calls = []\<rparr> =
     (Inl (Js (Error ''Cannot get() without a single-column primary key'')),
      \<lparr>connectedDatabases = [], pool_calls = []\<rparr>) \<and>
   delete (getTable (MySQLDatabase mysql_createPool '''') ''users'' (Some '''')) (Num ''42'')
       \<lparr>connectedDatabases = [], pool_calls = []\<rparr> =
     (Inl (Js (Error ''Cannot delete() without a single-column primary key'')),
      \<lparr>connectedDatabases = [], pool_calls = []\<rparr>) \<and>
   update (getTable (MySQLDatabase mysql_createPool '''') ''users'' (Some '''')) (Num ''42'')
       (Object True [(''status'', Basic (Str ''done''))]) \<lparr>connectedDatabases = [], pool_calls = []\<rparr> =
     (Inl (Js (Error ''Cannot update() without a single-column primary key'')),
      \<lparr>connectedDatabases = [], pool_calls = []\<rparr>)"
  by (simp add: getTable_def get_def delete_def update_def noPrimaryKey_def)

end
